theory Spec2Isabelle
  imports Complex_Main "HOL-Library.Monad_Syntax" "HOL-Library.AList"
    "HOL-Library.Product_Lexorder" "HOL-Library.Word"
begin

section \<open>Python values, dictionaries and the object store\<close>

text \<open>
  The graphology module works on Python dictionaries whose keys are strings and whose
  values are numbers or strings. A dictionary keeps its keys in insertion order, so it is
  an association list that is only changed through \<^const>\<open>AList.update\<close> (an existing
  key keeps its place, a new key goes last). Dictionaries are objects: they live in a
  store, and a variable holds the address of one. \<open>None\<close> stands for a raised
  exception (a missing key, a comparison of a string with a number) or for a NaN produced
  by a numeric routine.

  Floats are idealised as exact rationals: a decimal literal is its decimal value and the
  arithmetic does not round. The one exception is the product \<open>h * 0.7\<close> of the line
  test below, where the rounding decides a branch on integer data. Integers are Python's
  unbounded integers, grey values are bytes.
\<close>

datatype pyval = Num rat | Str string

type_synonym pydict = "(string \<times> pyval) list"

type_synonym addr = nat

type_synonym heap = "pydict list"

definition new_dict :: "heap \<Rightarrow> pydict \<Rightarrow> heap \<times> addr" where
  "new_dict h d = (h @ [d], length h)"

definition dict_get :: "heap \<Rightarrow> addr \<Rightarrow> string \<Rightarrow> pyval option" where
  "dict_get h a k = (if a < length h then map_of (h ! a) k else None)"

definition num_get :: "heap \<Rightarrow> addr \<Rightarrow> string \<Rightarrow> rat option" where
  "num_get h a k = (case dict_get h a k of Some (Num r) \<Rightarrow> Some r | _ \<Rightarrow> None)"

definition dict_set :: "heap \<Rightarrow> addr \<Rightarrow> string \<Rightarrow> pyval \<Rightarrow> heap" where
  "dict_set h a k v = h[a := AList.update k v (h ! a)]"

section \<open>The numeric routines\<close>

text \<open>
  \<open>np.mean\<close> and \<open>np.median\<close> of an empty sample are NaN, \<open>np.diff\<close> gives the
  successive differences, \<open>np.clip\<close> is the minimum with the upper bound of the maximum
  with the lower bound.
\<close>

definition np_mean :: "rat list \<Rightarrow> rat option" where
  "np_mean xs = (if xs = [] then None else Some (sum_list xs / of_nat (length xs)))"

definition np_median :: "rat list \<Rightarrow> rat option" where
  "np_median xs =
     (if xs = [] then None
      else let s = sort xs; n = length s
           in if odd n then Some (s ! (n div 2))
              else Some ((s ! (n div 2 - 1) + s ! (n div 2)) / 2))"

definition np_diff :: "rat list \<Rightarrow> rat list" where
  "np_diff xs = map (\<lambda>(a, b). b - a) (zip xs (tl xs))"

definition np_clip :: "rat \<Rightarrow> rat \<Rightarrow> rat \<Rightarrow> rat" where
  "np_clip x lo hi = min (max x lo) hi"

text \<open>
  The slope of \<open>np.polyfit(x, y, 1)\<close>: the least-squares line. An empty \<open>x\<close> and
  vectors of different lengths are rejected. When all abscissae are equal to some \<open>a\<close> the
  system has rank one and the routine returns the solution of least norm of the
  column-scaled system, whose slope is the mean of \<open>y\<close> over \<open>2 * a\<close>; for \<open>a = 0\<close>
  the scaling divides zero by zero.
\<close>

definition np_polyfit_slope :: "rat list \<Rightarrow> rat list \<Rightarrow> rat option" where
  "np_polyfit_slope xs ys =
     (if xs = [] \<or> length xs \<noteq> length ys then None
      else let n = of_nat (length xs);
               sx = sum_list xs; sy = sum_list ys;
               sxx = sum_list (map (\<lambda>x. x * x) xs);
               sxy = sum_list (map (\<lambda>(x, y). x * y) (zip xs ys));
               den = n * sxx - sx * sx
           in if den \<noteq> 0 then Some ((n * sxy - sx * sy) / den)
              else if hd xs = 0 then None
              else Some (sy / n / (2 * hd xs)))"

section \<open>extract_graphological_features\<close>

text \<open>
  The function sees its two images only through OpenCV. What it observes is: the external
  contours of the binary image (only whether there are any), the grey values of the pixels
  where the binary image is 255, and, for each external contour of the dilated binary
  image, its bounding rectangle \<open>(x, y, w, h)\<close> and the angle of its minimum-area
  rectangle. These observations are the input of the model.
\<close>

type_synonym bbox = "int \<times> int \<times> int \<times> int"

record contour =
  bounding_rect :: bbox
  min_area_angle :: rat

record image_view =
  contours :: "contour list"
  ink_pixels :: "8 word list"
  word_contours :: "contour list"

definition default_features :: pydict where
  "default_features =
     [(''pressure'', Num 0), (''letter_size'', Num 0), (''slant'', Num 0),
      (''baseline_slope'', Num 0), (''word_spacing'', Num 0), (''line_spacing'', Num 0),
      (''left_margin'', Num 0)]"

text \<open>Block 1: the mean grey value of the ink pixels, when one of them is not zero.\<close>

definition pen_pressure :: "heap \<Rightarrow> addr \<Rightarrow> 8 word list \<Rightarrow> heap option" where
  "pen_pressure h features ink =
     (if list_ex (\<lambda>p. p \<noteq> 0) ink then do {
        m \<leftarrow> np_mean (map (\<lambda>p. of_nat (unat p)) ink);
        Some (dict_set h features ''pressure'' (Num m))
      } else Some h)"

text \<open>Block 2: the loop over the word contours collects boxes, heights and angles.\<close>

fun collect_words ::
  "contour list \<Rightarrow> bbox list \<times> int list \<times> rat list \<Rightarrow> bbox list \<times> int list \<times> rat list" where
  "collect_words [] acc = acc"
| "collect_words (c # cs) (word_bboxes, heights, word_angles) =
     (case bounding_rect c of (x, y, w, h) \<Rightarrow>
        if w > 10 \<and> h > 10 then
          let angle = min_area_angle c;
              angle = (if w < h then 90 + angle else angle)
          in collect_words cs
               (word_bboxes @ [(x, y, w, h)], heights @ [h],
                if \<bar>angle\<bar> < 45 then word_angles @ [angle] else word_angles)
        else collect_words cs (word_bboxes, heights, word_angles))"

definition letter_size_and_slant :: "heap \<Rightarrow> addr \<Rightarrow> int list \<Rightarrow> rat list \<Rightarrow> heap option" where
  "letter_size_and_slant h features heights word_angles = do {
     h \<leftarrow> (if heights \<noteq> [] then do {
             m \<leftarrow> np_median (map of_int heights);
             Some (dict_set h features ''letter_size'' (Num m))
           } else Some h);
     if word_angles \<noteq> [] then do {
       m \<leftarrow> np_median word_angles;
       Some (dict_set h features ''slant'' (Num m))
     } else Some h
   }"

text \<open>
  Block 3. The threshold of the line test is the float \<open>h * 0.7\<close>: the integer
  \<open>h\<close> becomes a double, and its exact product with the double nearest to 0.7, which is
  \<open>3152519739159347 / 2 ^ 52\<close>, is rounded to 53 significant bits, to nearest and ties
  to even. (The exponent range of doubles is not modelled: heights are far from it.)
\<close>

function bit_length :: "int \<Rightarrow> nat" where
  "bit_length n = (if n \<le> 0 then 0 else Suc (bit_length (n div 2)))"
  by pat_completeness auto
termination
  by (relation "measure nat") auto

declare bit_length.simps [simp del]

definition round_to_53_bits :: "int \<Rightarrow> int" where
  "round_to_53_bits n =
     (let d = 2 ^ (bit_length n - 53); q = n div d; r = n mod d
      in if 2 * r < d then q * d
         else if 2 * r > d then (q + 1) * d
         else if even q then q * d else (q + 1) * d)"

definition times_0_7 :: "int \<Rightarrow> rat" where
  "times_0_7 h =
     of_int (sgn h * round_to_53_bits (round_to_53_bits \<bar>h\<bar> * 3152519739159347)) / 2 ^ 52"

text \<open>
  The loop that groups the sorted boxes by line carries the finished lines, the current
  line and its reference \<open>y\<close>; after it the current line is closed as well.
\<close>

fun group_loop ::
  "bbox list \<Rightarrow> bbox list list \<times> bbox list \<times> int \<Rightarrow> bbox list list \<times> bbox list \<times> int" where
  "group_loop [] acc = acc"
| "group_loop ((x, y, w, h) # bs) (lines_of_words, current_line, current_y) =
     (if of_int \<bar>y - current_y\<bar> > times_0_7 h then
        group_loop bs (lines_of_words @ [sort_key fst current_line], [(x, y, w, h)], y)
      else group_loop bs (lines_of_words, current_line @ [(x, y, w, h)], current_y))"

definition group_words_by_line :: "bbox list \<Rightarrow> bbox list list option" where
  "group_words_by_line word_bboxes =
     (case word_bboxes of
        [] \<Rightarrow> None
      | (x0, y0, w0, h0) # _ \<Rightarrow>
          (case group_loop word_bboxes ([], [], y0) of
             (lines_of_words, current_line, current_y) \<Rightarrow>
               Some (lines_of_words @ [sort_key fst current_line])))"

text \<open>The positive gaps between neighbours of one line, appended to the gaps so far.\<close>

fun gaps_of_line :: "bbox list \<Rightarrow> int list \<Rightarrow> int list" where
  "gaps_of_line ((x1, y1, w1, h1) # (x2, y2, w2, h2) # bs) word_gaps =
     (let gap = x2 - (x1 + w1)
      in gaps_of_line ((x2, y2, w2, h2) # bs) (if gap > 0 then word_gaps @ [gap] else word_gaps))"
| "gaps_of_line bs word_gaps = word_gaps"

text \<open>
  The loop over the lines carries the left margins, the word gaps, the baseline slopes and
  the line positions.
\<close>

fun measure_lines ::
  "bbox list list \<Rightarrow> int list \<times> int list \<times> rat list \<times> rat list \<Rightarrow>
   (int list \<times> int list \<times> rat list \<times> rat list) option" where
  "measure_lines [] acc = Some acc"
| "measure_lines (line # ls) (left_margins, word_gaps, baseline_slopes, line_y_coords) =
     (case line of
        [] \<Rightarrow> measure_lines ls (left_margins, word_gaps, baseline_slopes, line_y_coords)
      | (x0, y0, w0, h0) # _ \<Rightarrow>
          let left_margins = left_margins @ [x0];
              word_gaps = gaps_of_line line word_gaps;
              points_x = map (\<lambda>(x, y, w, h). of_int x + of_int w / 2) line;
              points_y = map (\<lambda>(x, y, w, h). of_int (y + h)) line
          in if length points_x > 1 then do {
               m \<leftarrow> np_polyfit_slope points_x points_y;
               c \<leftarrow> np_median points_y;
               measure_lines ls
                 (left_margins, word_gaps, baseline_slopes @ [m], line_y_coords @ [c])
             } else measure_lines ls (left_margins, word_gaps, baseline_slopes, line_y_coords))"

definition margins_spacing_baseline :: "heap \<Rightarrow> addr \<Rightarrow> bbox list \<Rightarrow> heap option" where
  "margins_spacing_baseline h features word_bboxes = do {
     lines_of_words \<leftarrow> group_words_by_line word_bboxes;
     (left_margins, word_gaps, baseline_slopes, line_y_coords) \<leftarrow>
       measure_lines lines_of_words ([], [], [], []);
     h \<leftarrow> (if word_gaps \<noteq> [] then do {
             m \<leftarrow> np_median (map of_int word_gaps);
             Some (dict_set h features ''word_spacing'' (Num m))
           } else Some h);
     h \<leftarrow> (if left_margins \<noteq> [] then do {
             m \<leftarrow> np_median (map of_int left_margins);
             Some (dict_set h features ''left_margin'' (Num m))
           } else Some h);
     h \<leftarrow> (if baseline_slopes \<noteq> [] then do {
             m \<leftarrow> np_median baseline_slopes;
             Some (dict_set h features ''baseline_slope'' (Num m))
           } else Some h);
     let line_gaps = np_diff line_y_coords;
     if length line_gaps > 0 then do {
       m \<leftarrow> np_median line_gaps;
       Some (dict_set h features ''line_spacing'' (Num m))
     } else Some h
   }"

text \<open>The function itself; \<open>lines\<close> is a parameter it never uses.\<close>

definition extract_graphological_features ::
  "heap \<Rightarrow> image_view \<Rightarrow> 'l \<Rightarrow> (heap \<times> addr) option" where
  "extract_graphological_features h img lines = do {
     let (h, features) = new_dict h default_features;
     if contours img = [] then Some (h, features)
     else do {
       h \<leftarrow> pen_pressure h features (ink_pixels img);
       let (word_bboxes, heights, word_angles) = collect_words (word_contours img) ([], [], []);
       h \<leftarrow> letter_size_and_slant h features heights word_angles;
       let word_bboxes = sort_key (\<lambda>(x, y, w, h). (y, x)) word_bboxes;
       if word_bboxes = [] then Some (h, features)
       else do {
         h \<leftarrow> margins_spacing_baseline h features word_bboxes;
         Some (h, features)
       }
     }
   }"

section \<open>get_personality_profile\<close>

text \<open>
  Each numbered block of the source function is one definition; all of them read the
  dictionary at \<open>features\<close> and write the dictionaries at \<open>quantitative\<close> and
  \<open>descriptive\<close>. Every subscript read of the source is a read of the current store.
\<close>

definition sociability_from_slant :: "heap \<Rightarrow> addr \<Rightarrow> addr \<Rightarrow> addr \<Rightarrow> heap option" where
  "sociability_from_slant h features quantitative descriptive = do {
     s \<leftarrow> num_get h features ''slant'';
     if s > 5 then
       Some (dict_set (dict_set h quantitative ''Sociability'' (Num (8/10)))
               descriptive ''Outlook'' (Str ''Sociable, expressive, approach-oriented.''))
     else do {
       s \<leftarrow> num_get h features ''slant'';
       if s < - 5 then
         Some (dict_set (dict_set h quantitative ''Sociability'' (Num (2/10)))
                 descriptive ''Outlook'' (Str ''Reserved, withdrawn, avoids conflict.''))
       else
         Some (dict_set (dict_set h quantitative ''Sociability'' (Num (4/10)))
                 descriptive ''Outlook'' (Str ''Controlled, independent, balanced.''))
     }
   }"

definition sociability_from_spacing :: "heap \<Rightarrow> addr \<Rightarrow> addr \<Rightarrow> addr \<Rightarrow> heap option" where
  "sociability_from_spacing h features quantitative descriptive = do {
     ws \<leftarrow> num_get h features ''word_spacing'';
     ls \<leftarrow> num_get h features ''letter_size'';
     if ws > ls then do {
       v \<leftarrow> num_get h quantitative ''Sociability'';
       Some (dict_set (dict_set h quantitative ''Sociability'' (Num (v - 1/10)))
               descriptive ''Social Type'' (Str ''Values space, independent.''))
     } else do {
       ws \<leftarrow> num_get h features ''word_spacing'';
       ls \<leftarrow> num_get h features ''letter_size'';
       if ws < ls * (5/10) then do {
         v \<leftarrow> num_get h quantitative ''Sociability'';
         Some (dict_set (dict_set h quantitative ''Sociability'' (Num (v + 2/10)))
                 descriptive ''Social Type'' (Str ''Sociable, seeks closeness.''))
       } else Some h
     }
   }"

definition focus_from_letter_size :: "heap \<Rightarrow> addr \<Rightarrow> addr \<Rightarrow> addr \<Rightarrow> heap option" where
  "focus_from_letter_size h features quantitative descriptive = do {
     ls \<leftarrow> num_get h features ''letter_size'';
     if ls > 50 then
       Some (dict_set (dict_set h quantitative ''Focus'' (Num (3/10)))
               descriptive ''Focus'' (Str ''Outgoing, assertive, big-picture oriented.''))
     else do {
       ls \<leftarrow> num_get h features ''letter_size'';
       if ls < 25 then
         Some (dict_set (dict_set h quantitative ''Focus'' (Num (9/10)))
                 descriptive ''Focus'' (Str ''Focused, introverted, detail-oriented.''))
       else
         Some (dict_set h descriptive ''Focus'' (Str ''Balanced and adaptable.''))
     }
   }"

definition intensity_from_pressure :: "heap \<Rightarrow> addr \<Rightarrow> addr \<Rightarrow> addr \<Rightarrow> heap option" where
  "intensity_from_pressure h features quantitative descriptive = do {
     p \<leftarrow> num_get h features ''pressure'';
     if p < 120 then
       Some (dict_set (dict_set h quantitative ''Intensity'' (Num (8/10)))
               descriptive ''Intensity'' (Str ''Intense, forceful, high energy.''))
     else do {
       p \<leftarrow> num_get h features ''pressure'';
       if p > 180 then
         Some (dict_set (dict_set h quantitative ''Intensity'' (Num (2/10)))
                 descriptive ''Intensity'' (Str ''Sensitive, empathetic, low arousal.''))
       else
         Some (dict_set h descriptive ''Intensity'' (Str ''Balanced emotional intensity.''))
     }
   }"

definition optimism_from_baseline :: "heap \<Rightarrow> addr \<Rightarrow> addr \<Rightarrow> addr \<Rightarrow> heap option" where
  "optimism_from_baseline h features quantitative descriptive = do {
     b \<leftarrow> num_get h features ''baseline_slope'';
     if b < - (5/100) then
       Some (dict_set (dict_set h quantitative ''Optimism'' (Num (2/10)))
               descriptive ''Mood'' (Str ''Pessimistic, tired, or discouraged.''))
     else do {
       b \<leftarrow> num_get h features ''baseline_slope'';
       if b > 5/100 then
         Some (dict_set (dict_set h quantitative ''Optimism'' (Num (8/10)))
                 descriptive ''Mood'' (Str ''Optimistic, energetic, ambitious.''))
       else
         Some (dict_set (dict_set h quantitative ''Optimism'' (Num (5/10)))
                 descriptive ''Mood'' (Str ''Steady, balanced, and stable.''))
     }
   }"

text \<open>
  A chained comparison \<open>lo <= e <= hi\<close> evaluates \<open>e\<close> once.
\<close>

definition discipline_from_baseline_and_slant ::
  "heap \<Rightarrow> addr \<Rightarrow> addr \<Rightarrow> addr \<Rightarrow> heap option" where
  "discipline_from_baseline_and_slant h features quantitative descriptive = do {
     b \<leftarrow> num_get h features ''baseline_slope'';
     let h = (if - (5/100) \<le> b \<and> b \<le> 5/100
              then dict_set h quantitative ''Discipline'' (Num (8/10))
              else dict_set h quantitative ''Discipline'' (Num (3/10)));
     s \<leftarrow> num_get h features ''slant'';
     if - 5 \<le> s \<and> s \<le> 5 then do {
       v \<leftarrow> num_get h quantitative ''Discipline'';
       Some (dict_set h quantitative ''Discipline'' (Num (v + 2/10)))
     } else Some h
   }"

definition spontaneity_from_margin :: "heap \<Rightarrow> addr \<Rightarrow> addr \<Rightarrow> addr \<Rightarrow> heap option" where
  "spontaneity_from_margin h features quantitative descriptive = do {
     m \<leftarrow> num_get h features ''left_margin'';
     if m > 40 then
       Some (dict_set (dict_set h quantitative ''Spontaneity'' (Num (2/10)))
               descriptive ''Planning'' (Str ''Cautious, planned, looks to the future.''))
     else do {
       m \<leftarrow> num_get h features ''left_margin'';
       if m < 20 then
         Some (dict_set (dict_set h quantitative ''Spontaneity'' (Num (9/10)))
                 descriptive ''Planning'' (Str ''Spontaneous, impulsive, lives in the moment.''))
       else Some h
     }
   }"

text \<open>
  The closing loop \<open>for k in quantitative: quantitative[k] = np.clip(quantitative[k], 0.1, 1.0)\<close>
  over the keys of the dictionary, in their order; an assignment to a key that is present
  leaves the keys as they are.
\<close>

fun cap_scores :: "heap \<Rightarrow> addr \<Rightarrow> string list \<Rightarrow> heap option" where
  "cap_scores h quantitative [] = Some h"
| "cap_scores h quantitative (k # ks) = do {
     v \<leftarrow> num_get h quantitative k;
     cap_scores (dict_set h quantitative k (Num (np_clip v (1/10) 1))) quantitative ks
   }"

definition get_personality_profile :: "heap \<Rightarrow> addr \<Rightarrow> (heap \<times> addr \<times> addr) option" where
  "get_personality_profile h features = do {
     let (h, quantitative) = new_dict h
           [(''Sociability'', Num (5/10)), (''Focus'', Num (5/10)), (''Intensity'', Num (5/10)),
            (''Optimism'', Num (5/10)), (''Discipline'', Num (5/10)), (''Spontaneity'', Num (5/10))];
     let (h, descriptive) = new_dict h [];
     h \<leftarrow> sociability_from_slant h features quantitative descriptive;
     h \<leftarrow> sociability_from_spacing h features quantitative descriptive;
     h \<leftarrow> focus_from_letter_size h features quantitative descriptive;
     h \<leftarrow> intensity_from_pressure h features quantitative descriptive;
     h \<leftarrow> optimism_from_baseline h features quantitative descriptive;
     h \<leftarrow> discipline_from_baseline_and_slant h features quantitative descriptive;
     h \<leftarrow> spontaneity_from_margin h features quantitative descriptive;
     h \<leftarrow> cap_scores h quantitative (map fst (h ! quantitative));
     Some (h, quantitative, descriptive)
   }"


section \<open>The graphology pipeline of the application\<close>

text \<open>
  The application calls the two functions one after the other on the images that the
  preprocessing returned, and keeps the three dictionaries.
\<close>

definition analyse :: "heap \<Rightarrow> image_view \<Rightarrow> 'l \<Rightarrow> (heap \<times> addr \<times> addr \<times> addr) option" where
  "analyse h img lines = do {
     (h, features) \<leftarrow> extract_graphological_features h img lines;
     (h, q_profile, d_profile) \<leftarrow> get_personality_profile h features;
     Some (h, features, q_profile, d_profile)
   }"

section \<open>Notions used to state the properties\<close>

definition feature_names :: "string list" where
  "feature_names = map fst default_features"

definition trait_names :: "string list" where
  "trait_names =
     [''Sociability'', ''Focus'', ''Intensity'', ''Optimism'', ''Discipline'', ''Spontaneity'']"

fun is_number :: "pyval \<Rightarrow> bool" where
  "is_number (Num r) = True"
| "is_number (Str s) = False"

definition is_num :: "pyval option \<Rightarrow> bool" where
  "is_num v = (case v of Some x \<Rightarrow> is_number x | None \<Rightarrow> False)"

text \<open>A feature vector: a dictionary with a number under each of the seven feature names.\<close>

definition has_features :: "pydict \<Rightarrow> bool" where
  "has_features fd = list_all (\<lambda>k. is_num (map_of fd k)) feature_names"

fun score_in_range :: "pyval \<Rightarrow> bool" where
  "score_in_range (Num r) = (1/10 \<le> r \<and> r \<le> 1)"
| "score_in_range (Str s) = False"

text \<open>The quantitative dictionary with the six given scores, in the order of the source.\<close>

definition scores :: "rat \<Rightarrow> rat \<Rightarrow> rat \<Rightarrow> rat \<Rightarrow> rat \<Rightarrow> rat \<Rightarrow> pydict" where
  "scores a b c d e g =
     [(''Sociability'', Num a), (''Focus'', Num b), (''Intensity'', Num c),
      (''Optimism'', Num d), (''Discipline'', Num e), (''Spontaneity'', Num g)]"

definition score_shape :: "pydict \<Rightarrow> bool" where
  "score_shape qd = (map fst qd = trait_names \<and> list_all is_number (map snd qd))"

text \<open>The contents of the quantitative dictionary of a result.\<close>

definition quantitative_of :: "(heap \<times> addr \<times> addr) option \<Rightarrow> pydict option" where
  "quantitative_of r = (case r of None \<Rightarrow> None | Some (h, q, d) \<Rightarrow> Some (h ! q))"

text \<open>The feature vectors of the scenarios.\<close>

definition extreme_features :: pydict where
  "extreme_features =
     [(''pressure'', Num 0), (''letter_size'', Num 0), (''slant'', Num 90),
      (''baseline_slope'', Num 0), (''word_spacing'', Num 0), (''line_spacing'', Num 0),
      (''left_margin'', Num 10000)]"

definition scenario_features :: pydict where
  "scenario_features =
     [(''slant'', Num 8), (''word_spacing'', Num 5), (''letter_size'', Num 30),
      (''pressure'', Num 100), (''baseline_slope'', Num (8/100)), (''left_margin'', Num 50),
      (''line_spacing'', Num 0)]"

subsection \<open>What the extractor measures\<close>

text \<open>
  The seven-entry feature dictionary with the given values, in the order of the source.
\<close>

definition feats :: "rat \<Rightarrow> rat \<Rightarrow> rat \<Rightarrow> rat \<Rightarrow> rat \<Rightarrow> rat \<Rightarrow> rat \<Rightarrow> pydict" where
  "feats p l s b w g m =
     [(''pressure'', Num p), (''letter_size'', Num l), (''slant'', Num s),
      (''baseline_slope'', Num b), (''word_spacing'', Num w), (''line_spacing'', Num g),
      (''left_margin'', Num m)]"

text \<open>
  A bounding rectangle as OpenCV reports it for a contour inside an image: the corner is
  not negative and the sides are positive. A view is valid when every word contour has
  such a rectangle.
\<close>

definition valid_box :: "bbox \<Rightarrow> bool" where
  "valid_box b = (case b of (x, y, w, h) \<Rightarrow> 0 \<le> x \<and> 0 \<le> y \<and> 0 < w \<and> 0 < h)"

definition valid_view :: "image_view \<Rightarrow> bool" where
  "valid_view img = list_all valid_box (map bounding_rect (word_contours img))"

text \<open>
  The word boxes are the bounding rectangles wider and higher than 10. The angle of a
  word box has 90 added exactly when the box is taller than wide, and it is retained when
  its absolute value is then below 45.
\<close>

definition passes_filter :: "contour \<Rightarrow> bool" where
  "passes_filter c = (case bounding_rect c of (x, y, w, h) \<Rightarrow> w > 10 \<and> h > 10)"

definition word_boxes :: "contour list \<Rightarrow> bbox list" where
  "word_boxes cs = map bounding_rect (filter passes_filter cs)"

definition box_height :: "bbox \<Rightarrow> int" where
  "box_height b = (case b of (x, y, w, h) \<Rightarrow> h)"

definition adjusted_angle :: "contour \<Rightarrow> rat" where
  "adjusted_angle c =
     (case bounding_rect c of (x, y, w, h) \<Rightarrow>
        if h > w then min_area_angle c + 90 else min_area_angle c)"

definition retained_angles :: "contour list \<Rightarrow> rat list" where
  "retained_angles cs =
     filter (\<lambda>a. \<bar>a\<bar> < 45) (map adjusted_angle (filter passes_filter cs))"

text \<open>
  The lines of words of a view (none when there is no word box), the \<open>x\<close> of the
  first word of each line, the median of a sample or 0 for the empty sample, and the
  pressure: the mean grey value of the ink pixels when one of them is not zero, else 0.
\<close>

definition word_lines :: "contour list \<Rightarrow> bbox list list" where
  "word_lines cs =
     (case group_words_by_line (sort_key (\<lambda>(x, y, w, h). (y, x)) (word_boxes cs)) of
        None \<Rightarrow> [] | Some ls \<Rightarrow> ls)"

definition line_starts :: "bbox list list \<Rightarrow> int list" where
  "line_starts ls = map (\<lambda>line. fst (hd line)) (filter (\<lambda>line. line \<noteq> []) ls)"

definition median_or_zero :: "rat list \<Rightarrow> rat" where
  "median_or_zero xs = (case np_median xs of None \<Rightarrow> 0 | Some m \<Rightarrow> m)"

definition pressure_of :: "8 word list \<Rightarrow> rat" where
  "pressure_of ink =
     (if list_ex (\<lambda>p. p \<noteq> 0) ink
      then sum_list (map (\<lambda>p. of_nat (unat p)) ink) / of_nat (length ink) else 0)"

text \<open>
  The samples of the lines: for each pair of neighbours the gap
  \<open>next.x - (prev.x + prev.width)\<close> when it is positive; for each line of two words or
  more the slope of the least-squares line through the bottom centres
  \<open>(x + width / 2, y + height)\<close>, and the median of their heights \<open>y + height\<close>.
\<close>

definition centre_x :: "bbox \<Rightarrow> rat" where
  "centre_x b = (case b of (x, y, w, h) \<Rightarrow> of_int x + of_int w / 2)"

definition bottom_y :: "bbox \<Rightarrow> rat" where
  "bottom_y b = (case b of (x, y, w, h) \<Rightarrow> of_int (y + h))"

definition line_gaps :: "bbox list \<Rightarrow> int list" where
  "line_gaps line =
     filter (\<lambda>gap. 0 < gap)
       (map (\<lambda>(prev, next). (case prev of (x1, y1, w1, h1) \<Rightarrow>
               case next of (x2, y2, w2, h2) \<Rightarrow> x2 - (x1 + w1)))
          (zip line (tl line)))"

definition gap_samples :: "bbox list list \<Rightarrow> int list" where
  "gap_samples ls = concat (map line_gaps ls)"

definition line_slope :: "bbox list \<Rightarrow> rat" where
  "line_slope line =
     (case np_polyfit_slope (map centre_x line) (map bottom_y line) of
        None \<Rightarrow> 0 | Some m \<Rightarrow> m)"

definition slope_samples :: "bbox list list \<Rightarrow> rat list" where
  "slope_samples ls = map line_slope (filter (\<lambda>line. 1 < length line) ls)"

definition position_samples :: "bbox list list \<Rightarrow> rat list" where
  "position_samples ls =
     map (\<lambda>line. median_or_zero (map bottom_y line)) (filter (\<lambda>line. 1 < length line) ls)"

text \<open>
  The three dictionaries that a run of the pipeline produced.
\<close>

definition outcome ::
  "(heap \<times> addr \<times> addr \<times> addr) option \<Rightarrow> (pydict \<times> pydict \<times> pydict) option" where
  "outcome r = (case r of None \<Rightarrow> None | Some (h, f, q, d) \<Rightarrow> Some (h ! f, h ! q, h ! d))"

text \<open>
  The views of the scenarios: a blank page; specks too small to be words; two words one
  below the other; two words on one line; five words on two lines, next to a speck.
\<close>

definition blank_view :: image_view where
  "blank_view = \<lparr>contours = [], ink_pixels = [], word_contours = []\<rparr>"

definition specks_view :: image_view where
  "specks_view =
     \<lparr>contours = [\<lparr>bounding_rect = (3, 4, 2, 2), min_area_angle = 0\<rparr>],
      ink_pixels = [90, 110],
      word_contours = [\<lparr>bounding_rect = (1, 2, 6, 6), min_area_angle = 0\<rparr>]\<rparr>"

definition column_view :: image_view where
  "column_view =
     \<lparr>contours = [\<lparr>bounding_rect = (12, 10, 20, 16), min_area_angle = 0\<rparr>],
      ink_pixels = [100, 200],
      word_contours =
        [\<lparr>bounding_rect = (10, 8, 24, 20), min_area_angle = 3\<rparr>,
         \<lparr>bounding_rect = (14, 60, 24, 20), min_area_angle = 80\<rparr>]\<rparr>"

definition one_line_view :: image_view where
  "one_line_view =
     \<lparr>contours = [\<lparr>bounding_rect = (7, 2, 26, 16), min_area_angle = 0\<rparr>],
      ink_pixels = [100, 200],
      word_contours =
        [\<lparr>bounding_rect = (50, 4, 30, 20), min_area_angle = 5\<rparr>,
         \<lparr>bounding_rect = (5, 0, 30, 20), min_area_angle = 3\<rparr>]\<rparr>"

definition sample_view :: image_view where
  "sample_view =
     \<lparr>contours = [\<lparr>bounding_rect = (7, 2, 26, 18), min_area_angle = 0\<rparr>],
      ink_pixels = [100, 200, 51],
      word_contours =
        [\<lparr>bounding_rect = (50, 2, 30, 20), min_area_angle = 12\<rparr>,
         \<lparr>bounding_rect = (5, 0, 30, 22), min_area_angle = - 10\<rparr>,
         \<lparr>bounding_rect = (7, 50, 30, 20), min_area_angle = 80\<rparr>,
         \<lparr>bounding_rect = (60, 52, 30, 20), min_area_angle = 3\<rparr>,
         \<lparr>bounding_rect = (60, 52, 3, 20), min_area_angle = 3\<rparr>,
         \<lparr>bounding_rect = (100, 54, 20, 30), min_area_angle = - 85\<rparr>]\<rparr>"

definition sample_store :: heap where
  "sample_store =
     [feats 117 20 4 (293/3926) 15 50 6,
      scores (4/10) (9/10) (8/10) (8/10) (5/10) (9/10),
      [(''Outlook'', Str ''Controlled, independent, balanced.''),
       (''Focus'', Str ''Focused, introverted, detail-oriented.''),
       (''Intensity'', Str ''Intense, forceful, high energy.''),
       (''Mood'', Str ''Optimistic, energetic, ambitious.''),
       (''Planning'', Str ''Spontaneous, impulsive, lives in the moment.'')]]"

subsection \<open>The extractor on values\<close>

text \<open>
  For the proofs: what \<open>extract_graphological_features\<close> stores, as a function of
  the view alone. \<open>guarded c v d\<close> is the value under a key after
  \<open>if c: features[key] = v\<close> when it was \<open>d\<close> before.
\<close>

definition guarded :: "bool \<Rightarrow> rat option \<Rightarrow> rat \<Rightarrow> rat option" where
  "guarded c v d = (if c then v else Some d)"

definition layout_values :: "bbox list \<Rightarrow> (rat \<times> rat \<times> rat \<times> rat) option" where
  "layout_values word_bboxes = do {
     lines_of_words \<leftarrow> group_words_by_line word_bboxes;
     (left_margins, word_gaps, baseline_slopes, line_y_coords) \<leftarrow>
       measure_lines lines_of_words ([], [], [], []);
     w \<leftarrow> guarded (word_gaps \<noteq> []) (np_median (map of_int word_gaps)) 0;
     m \<leftarrow> guarded (left_margins \<noteq> []) (np_median (map of_int left_margins)) 0;
     b \<leftarrow> guarded (baseline_slopes \<noteq> []) (np_median baseline_slopes) 0;
     g \<leftarrow> guarded (length (np_diff line_y_coords) > 0) (np_median (np_diff line_y_coords)) 0;
     Some (b, w, g, m)
   }"

definition feature_values :: "image_view \<Rightarrow> pydict option" where
  "feature_values img =
     (if contours img = [] then Some default_features
      else do {
        p \<leftarrow> guarded (list_ex (\<lambda>p. p \<noteq> 0) (ink_pixels img))
               (np_mean (map (\<lambda>p. of_nat (unat p)) (ink_pixels img))) 0;
        let (word_bboxes, heights, word_angles) = collect_words (word_contours img) ([], [], []);
        l \<leftarrow> guarded (heights \<noteq> []) (np_median (map of_int heights)) 0;
        s \<leftarrow> guarded (word_angles \<noteq> []) (np_median word_angles) 0;
        if word_bboxes = [] then Some (feats p l s 0 0 0 0)
        else do {
          (b, w, g, m) \<leftarrow> layout_values (sort_key (\<lambda>(x, y, w, h). (y, x)) word_bboxes);
          Some (feats p l s b w g m)
        }
      })"

subsection \<open>The scorer block by block\<close>

text \<open>
  The seven rule blocks in sequence, and two properties of a block that the proofs
  compose: it behaves on a store \<open>h @ [qd, dd]\<close> as on the three-object store
  \<open>[h ! f, qd, dd]\<close>; and on a feature vector it succeeds and leaves six numeric scores.
\<close>

definition score_rules :: "heap \<Rightarrow> addr \<Rightarrow> addr \<Rightarrow> addr \<Rightarrow> heap option" where
  "score_rules h features quantitative descriptive = do {
     h \<leftarrow> sociability_from_slant h features quantitative descriptive;
     h \<leftarrow> sociability_from_spacing h features quantitative descriptive;
     h \<leftarrow> focus_from_letter_size h features quantitative descriptive;
     h \<leftarrow> intensity_from_pressure h features quantitative descriptive;
     h \<leftarrow> optimism_from_baseline h features quantitative descriptive;
     h \<leftarrow> discipline_from_baseline_and_slant h features quantitative descriptive;
     spontaneity_from_margin h features quantitative descriptive
   }"

definition local_step :: "(heap \<Rightarrow> addr \<Rightarrow> addr \<Rightarrow> addr \<Rightarrow> heap option) \<Rightarrow> bool" where
  "local_step R = (\<forall>h f qd dd. f < length h \<longrightarrow>
     (R (h @ [qd, dd]) f (length h) (Suc (length h)) = None \<and> R [h ! f, qd, dd] 0 1 2 = None) \<or>
     (\<exists>qd' dd'. R (h @ [qd, dd]) f (length h) (Suc (length h)) = Some (h @ [qd', dd']) \<and>
                 R [h ! f, qd, dd] 0 1 2 = Some [h ! f, qd', dd']))"

definition scores_step :: "(heap \<Rightarrow> addr \<Rightarrow> addr \<Rightarrow> addr \<Rightarrow> heap option) \<Rightarrow> bool" where
  "scores_step R = (\<forall>fd qd dd. has_features fd \<longrightarrow> score_shape qd \<longrightarrow>
     (\<exists>qd' dd'. R [fd, qd, dd] 0 1 2 = Some [fd, qd', dd'] \<and> score_shape qd'))"

section \<open>The rule blocks act on three objects only\<close>

lemmas heap_defs = new_dict_def dict_get_def num_get_def dict_set_def

lemma times_0_7_values:
  "times_0_7 20 = 14"
  "times_0_7 22 = 2167357320672051 / 140737488355328"
  "times_0_7 30 = 21"
  "times_0_7 60 = 42"
  "times_0_7 90 = 8866461766385663 / 140737488355328"
  by (simp_all add: times_0_7_def round_to_53_bits_def bit_length.simps Let_def)

lemma local_stepD:
  "local_step R \<Longrightarrow> f < length h \<Longrightarrow>
   (R (h @ [qd, dd]) f (length h) (Suc (length h)) = None \<and> R [h ! f, qd, dd] 0 1 2 = None) \<or>
   (\<exists>qd' dd'. R (h @ [qd, dd]) f (length h) (Suc (length h)) = Some (h @ [qd', dd']) \<and>
               R [h ! f, qd, dd] 0 1 2 = Some [h ! f, qd', dd'])"
  by (simp add: local_step_def)

lemma local_step_bind:
  assumes "local_step R" and "local_step S"
  shows "local_step (\<lambda>h f q d. R h f q d \<bind> (\<lambda>h'. S h' f q d))"
  unfolding local_step_def
proof (intro allI impI)
  fix h :: heap and f qd dd
  assume f: "f < length h"
  let ?goal = "(R (h @ [qd, dd]) f (length h) (Suc (length h))
                  \<bind> (\<lambda>h'. S h' f (length h) (Suc (length h))) = None \<and>
                R [h ! f, qd, dd] 0 1 2 \<bind> (\<lambda>h'. S h' 0 1 2) = None) \<or>
       (\<exists>qd' dd'.
           R (h @ [qd, dd]) f (length h) (Suc (length h))
             \<bind> (\<lambda>h'. S h' f (length h) (Suc (length h))) = Some (h @ [qd', dd']) \<and>
           R [h ! f, qd, dd] 0 1 2 \<bind> (\<lambda>h'. S h' 0 1 2) = Some [h ! f, qd', dd'])"
  from local_stepD [OF assms(1) f, of qd dd] show ?goal
  proof
    assume "R (h @ [qd, dd]) f (length h) (Suc (length h)) = None \<and> R [h ! f, qd, dd] 0 1 2 = None"
    then show ?goal by simp
  next
    assume "\<exists>qd' dd'. R (h @ [qd, dd]) f (length h) (Suc (length h)) = Some (h @ [qd', dd']) \<and>
                 R [h ! f, qd, dd] 0 1 2 = Some [h ! f, qd', dd']"
    then obtain qd1 dd1 where
      r: "R (h @ [qd, dd]) f (length h) (Suc (length h)) = Some (h @ [qd1, dd1])"
         "R [h ! f, qd, dd] 0 1 2 = Some [h ! f, qd1, dd1]" by blast
    from local_stepD [OF assms(2) f, of qd1 dd1] r show ?goal by simp
  qed
qed

lemma local_slant: "local_step sociability_from_slant"
  unfolding local_step_def
  by (auto simp: sociability_from_slant_def heap_defs nth_append list_update_append
      split: option.splits pyval.splits)

lemma local_spacing: "local_step sociability_from_spacing"
  unfolding local_step_def
  by (auto simp: sociability_from_spacing_def heap_defs nth_append list_update_append
      split: option.splits pyval.splits)

lemma local_focus: "local_step focus_from_letter_size"
  unfolding local_step_def
  by (auto simp: focus_from_letter_size_def heap_defs nth_append list_update_append
      split: option.splits pyval.splits)

lemma local_intensity: "local_step intensity_from_pressure"
  unfolding local_step_def
  by (auto simp: intensity_from_pressure_def heap_defs nth_append list_update_append
      split: option.splits pyval.splits)

lemma local_optimism: "local_step optimism_from_baseline"
  unfolding local_step_def
  by (auto simp: optimism_from_baseline_def heap_defs nth_append list_update_append
      split: option.splits pyval.splits)

lemma local_discipline: "local_step discipline_from_baseline_and_slant"
  unfolding local_step_def
  by (auto simp: discipline_from_baseline_and_slant_def heap_defs nth_append list_update_append
      Let_def split: option.splits pyval.splits)

lemma local_spontaneity: "local_step spontaneity_from_margin"
  unfolding local_step_def
  by (auto simp: spontaneity_from_margin_def heap_defs nth_append list_update_append
      split: option.splits pyval.splits)

lemma local_score_rules: "local_step score_rules"
proof -
  have "local_step (\<lambda>h f q d. sociability_from_slant h f q d \<bind> (\<lambda>h.
     sociability_from_spacing h f q d \<bind> (\<lambda>h.
     focus_from_letter_size h f q d \<bind> (\<lambda>h.
     intensity_from_pressure h f q d \<bind> (\<lambda>h.
     optimism_from_baseline h f q d \<bind> (\<lambda>h.
     discipline_from_baseline_and_slant h f q d \<bind> (\<lambda>h.
     spontaneity_from_margin h f q d)))))))"
    by (intro local_step_bind local_slant local_spacing local_focus local_intensity
        local_optimism local_discipline local_spontaneity)
  moreover have "score_rules = (\<lambda>h f q d. sociability_from_slant h f q d \<bind> (\<lambda>h.
     sociability_from_spacing h f q d \<bind> (\<lambda>h.
     focus_from_letter_size h f q d \<bind> (\<lambda>h.
     intensity_from_pressure h f q d \<bind> (\<lambda>h.
     optimism_from_baseline h f q d \<bind> (\<lambda>h.
     discipline_from_baseline_and_slant h f q d \<bind> (\<lambda>h.
     spontaneity_from_margin h f q d)))))))"
    by (intro ext) (simp add: score_rules_def)
  ultimately show ?thesis by simp
qed

lemma cap_scores_local:
  "(cap_scores (h @ [qd, dd]) (length h) ks = None \<and> cap_scores [fd, qd, dd] 1 ks = None) \<or>
   (\<exists>qd'. cap_scores (h @ [qd, dd]) (length h) ks = Some (h @ [qd', dd]) \<and>
           cap_scores [fd, qd, dd] 1 ks = Some [fd, qd', dd])"
proof (induction ks arbitrary: qd)
  case Nil
  show ?case by simp
next
  case (Cons k ks)
  show ?case
  proof (cases "map_of qd k")
    case None
    then show ?thesis by (simp add: heap_defs)
  next
    case (Some v)
    show ?thesis
    proof (cases v)
      case (Num r)
      with Some Cons.IH [of "AList.update k (Num (np_clip r (1/10) 1)) qd"]
      show ?thesis by (simp add: heap_defs)
    next
      case (Str s)
      with Some show ?thesis by (simp add: heap_defs)
    qed
  qed
qed

lemma gpp_unfold:
  "get_personality_profile h f =
     score_rules (h @ [scores (5/10) (5/10) (5/10) (5/10) (5/10) (5/10), []]) f
       (length h) (Suc (length h))
     \<bind> (\<lambda>h'. cap_scores h' (length h) (map fst (h' ! length h))
     \<bind> (\<lambda>h''. Some (h'', length h, Suc (length h))))"
  by (simp add: get_personality_profile_def score_rules_def new_dict_def scores_def)

lemma gpp_local:
  assumes "f < length h"
  shows "(get_personality_profile h f = None \<and> get_personality_profile [h ! f] 0 = None) \<or>
         (\<exists>Q D. get_personality_profile h f = Some (h @ [Q, D], length h, Suc (length h)) \<and>
                 get_personality_profile [h ! f] 0 = Some ([h ! f, Q, D], 1, 2))"
proof -
  let ?init = "scores (5/10) (5/10) (5/10) (5/10) (5/10) (5/10)"
  from local_stepD [OF local_score_rules assms, of ?init "[]"] show ?thesis
  proof
    assume "score_rules (h @ [?init, []]) f (length h) (Suc (length h)) = None \<and>
            score_rules [h ! f, ?init, []] 0 1 2 = None"
    then show ?thesis by (simp add: gpp_unfold numeral_2_eq_2)
  next
    assume "\<exists>qd' dd'. score_rules (h @ [?init, []]) f (length h) (Suc (length h)) = Some (h @ [qd', dd']) \<and>
                 score_rules [h ! f, ?init, []] 0 1 2 = Some [h ! f, qd', dd']"
    then obtain qd1 dd1 where
      r: "score_rules (h @ [?init, []]) f (length h) (Suc (length h)) = Some (h @ [qd1, dd1])"
         "score_rules [h ! f, ?init, []] 0 1 2 = Some [h ! f, qd1, dd1]" by blast
    from cap_scores_local [of h qd1 dd1 "map fst qd1" "h ! f"] r
    show ?thesis by (auto simp: gpp_unfold numeral_2_eq_2)
  qed
qed

section \<open>On a feature vector the rules succeed and keep six numeric scores\<close>

lemma is_numberE: "is_number v \<Longrightarrow> \<exists>r. v = Num r"
  by (cases v) auto

lemma is_numE: "is_num v \<Longrightarrow> \<exists>r. v = Some (Num r)"
  by (auto simp: is_num_def split: option.splits dest: is_numberE)

lemma has_featuresD:
  assumes "has_features fd"
  shows "\<exists>p l s b w m. map_of fd ''pressure'' = Some (Num p) \<and> map_of fd ''letter_size'' = Some (Num l)
    \<and> map_of fd ''slant'' = Some (Num s) \<and> map_of fd ''baseline_slope'' = Some (Num b)
    \<and> map_of fd ''word_spacing'' = Some (Num w) \<and> map_of fd ''left_margin'' = Some (Num m)"
  using assms by (auto simp: has_features_def feature_names_def default_features_def dest!: is_numE)

lemma score_shapeD:
  assumes "score_shape qd"
  shows "\<exists>a b c d e g. qd = scores a b c d e g"
  using assms
  by (auto simp: score_shape_def trait_names_def scores_def map_eq_Cons_conv dest!: is_numberE)

lemma score_shape_scores: "score_shape (scores a b c d e g)"
  by (simp add: score_shape_def trait_names_def scores_def)

lemma scores_stepD:
  "scores_step R \<Longrightarrow> has_features fd \<Longrightarrow> score_shape qd \<Longrightarrow>
   \<exists>qd' dd'. R [fd, qd, dd] 0 1 2 = Some [fd, qd', dd'] \<and> score_shape qd'"
  by (simp add: scores_step_def)

lemma scores_step_bind:
  assumes "scores_step R" and "scores_step S"
  shows "scores_step (\<lambda>h f q d. R h f q d \<bind> (\<lambda>h'. S h' f q d))"
  unfolding scores_step_def
proof (intro allI impI)
  fix fd qd dd
  assume fd: "has_features fd" and qd: "score_shape qd"
  from scores_stepD [OF assms(1) fd qd, of dd] obtain qd1 dd1 where
    1: "R [fd, qd, dd] 0 1 2 = Some [fd, qd1, dd1]" "score_shape qd1" by blast
  from scores_stepD [OF assms(2) fd 1(2), of dd1] obtain qd2 dd2 where
    2: "S [fd, qd1, dd1] 0 1 2 = Some [fd, qd2, dd2]" "score_shape qd2" by blast
  from 1 2 show "\<exists>qd' dd'.
     R [fd, qd, dd] 0 1 2 \<bind> (\<lambda>h'. S h' 0 1 2) = Some [fd, qd', dd'] \<and> score_shape qd'"
    by simp
qed

lemma update_scores:
  "AList.update ''Sociability'' (Num v) (scores a b c d e g) = scores v b c d e g"
  "AList.update ''Focus'' (Num v) (scores a b c d e g) = scores a v c d e g"
  "AList.update ''Intensity'' (Num v) (scores a b c d e g) = scores a b v d e g"
  "AList.update ''Optimism'' (Num v) (scores a b c d e g) = scores a b c v e g"
  "AList.update ''Discipline'' (Num v) (scores a b c d e g) = scores a b c d v g"
  "AList.update ''Spontaneity'' (Num v) (scores a b c d e g) = scores a b c d e v"
  by (simp_all add: scores_def)

lemma map_of_scores:
  "map_of (scores a b c d e g) ''Sociability'' = Some (Num a)"
  "map_of (scores a b c d e g) ''Focus'' = Some (Num b)"
  "map_of (scores a b c d e g) ''Intensity'' = Some (Num c)"
  "map_of (scores a b c d e g) ''Optimism'' = Some (Num d)"
  "map_of (scores a b c d e g) ''Discipline'' = Some (Num e)"
  "map_of (scores a b c d e g) ''Spontaneity'' = Some (Num g)"
  by (simp_all add: scores_def)

lemmas shape_simps = heap_defs update_scores map_of_scores score_shape_scores

lemma scores_slant: "scores_step sociability_from_slant"
  unfolding scores_step_def
  by (auto simp: sociability_from_slant_def shape_simps dest!: has_featuresD score_shapeD)

lemma scores_spacing: "scores_step sociability_from_spacing"
  unfolding scores_step_def
  by (auto simp: sociability_from_spacing_def shape_simps dest!: has_featuresD score_shapeD)

lemma scores_focus: "scores_step focus_from_letter_size"
  unfolding scores_step_def
  by (auto simp: focus_from_letter_size_def shape_simps dest!: has_featuresD score_shapeD)

lemma scores_intensity: "scores_step intensity_from_pressure"
  unfolding scores_step_def
  by (auto simp: intensity_from_pressure_def shape_simps dest!: has_featuresD score_shapeD)

lemma scores_optimism: "scores_step optimism_from_baseline"
  unfolding scores_step_def
  by (auto simp: optimism_from_baseline_def shape_simps dest!: has_featuresD score_shapeD)

lemma scores_discipline: "scores_step discipline_from_baseline_and_slant"
  unfolding scores_step_def
  by (auto simp: discipline_from_baseline_and_slant_def shape_simps Let_def
      dest!: has_featuresD score_shapeD)

lemma scores_spontaneity: "scores_step spontaneity_from_margin"
  unfolding scores_step_def
  by (auto simp: spontaneity_from_margin_def shape_simps dest!: has_featuresD score_shapeD)

lemma scores_score_rules: "scores_step score_rules"
proof -
  have "scores_step (\<lambda>h f q d. sociability_from_slant h f q d \<bind> (\<lambda>h.
     sociability_from_spacing h f q d \<bind> (\<lambda>h.
     focus_from_letter_size h f q d \<bind> (\<lambda>h.
     intensity_from_pressure h f q d \<bind> (\<lambda>h.
     optimism_from_baseline h f q d \<bind> (\<lambda>h.
     discipline_from_baseline_and_slant h f q d \<bind> (\<lambda>h.
     spontaneity_from_margin h f q d)))))))"
    by (intro scores_step_bind scores_slant scores_spacing scores_focus scores_intensity
        scores_optimism scores_discipline scores_spontaneity)
  moreover have "score_rules = (\<lambda>h f q d. sociability_from_slant h f q d \<bind> (\<lambda>h.
     sociability_from_spacing h f q d \<bind> (\<lambda>h.
     focus_from_letter_size h f q d \<bind> (\<lambda>h.
     intensity_from_pressure h f q d \<bind> (\<lambda>h.
     optimism_from_baseline h f q d \<bind> (\<lambda>h.
     discipline_from_baseline_and_slant h f q d \<bind> (\<lambda>h.
     spontaneity_from_margin h f q d)))))))"
    by (intro ext) (simp add: score_rules_def)
  ultimately show ?thesis by simp
qed

lemma cap_scores_run:
  "cap_scores [fd, scores a b c d e g, dd] 1 (map fst (scores a b c d e g)) =
   Some [fd, scores (np_clip a (1/10) 1) (np_clip b (1/10) 1) (np_clip c (1/10) 1)
                    (np_clip d (1/10) 1) (np_clip e (1/10) 1) (np_clip g (1/10) 1), dd]"
  by (simp add: scores_def heap_defs)

lemma np_clip_range: "1/10 \<le> np_clip x (1/10) 1 \<and> np_clip x (1/10) 1 \<le> 1"
  by (simp add: np_clip_def min_def max_def)

lemma gpp_small:
  assumes "has_features fd"
  shows "\<exists>Q D. get_personality_profile [fd] 0 = Some ([fd, Q, D], 1, 2) \<and>
           map fst Q = trait_names \<and> list_all score_in_range (map snd Q)"
proof -
  from scores_stepD [OF scores_score_rules assms score_shape_scores]
  obtain qd dd where
    r: "score_rules [fd, scores (5/10) (5/10) (5/10) (5/10) (5/10) (5/10), []] 0 1 2 = Some [fd, qd, dd]"
    and "score_shape qd" by blast
  then obtain a b c d e g where qd: "qd = scores a b c d e g"
    by (blast dest: score_shapeD)
  let ?Q = "scores (np_clip a (1/10) 1) (np_clip b (1/10) 1) (np_clip c (1/10) 1)
                    (np_clip d (1/10) 1) (np_clip e (1/10) 1) (np_clip g (1/10) 1)"
  have "get_personality_profile [fd] 0 = Some ([fd, ?Q, dd], 1, 2)"
    using r cap_scores_run [of fd a b c d e g dd]
    by (simp add: gpp_unfold qd numeral_2_eq_2)
  moreover have "map fst ?Q = trait_names" by (simp add: scores_def trait_names_def)
  moreover have "list_all score_in_range (map snd ?Q)"
    using np_clip_range by (simp add: scores_def)
  ultimately show ?thesis by blast
qed


lemmas rule_defs = get_personality_profile_def sociability_from_slant_def sociability_from_spacing_def
  focus_from_letter_size_def intensity_from_pressure_def optimism_from_baseline_def
  discipline_from_baseline_and_slant_def spontaneity_from_margin_def

lemma gpp_default:
  "get_personality_profile [default_features] 0 =
   Some ([default_features, scores (4/10) (9/10) (8/10) (5/10) 1 (9/10),
     [(''Outlook'', Str ''Controlled, independent, balanced.''),
      (''Focus'', Str ''Focused, introverted, detail-oriented.''),
      (''Intensity'', Str ''Intense, forceful, high energy.''),
      (''Mood'', Str ''Steady, balanced, and stable.''),
      (''Planning'', Str ''Spontaneous, impulsive, lives in the moment.'')]], 1, 2)"
  by (simp add: rule_defs heap_defs np_clip_def default_features_def scores_def)

lemma gpp_scenario:
  "get_personality_profile [scenario_features] 0 =
   Some ([scenario_features, scores 1 (5/10) (8/10) (8/10) (3/10) (2/10),
     [(''Outlook'', Str ''Sociable, expressive, approach-oriented.''),
      (''Social Type'', Str ''Sociable, seeks closeness.''),
      (''Focus'', Str ''Balanced and adaptable.''),
      (''Intensity'', Str ''Intense, forceful, high energy.''),
      (''Mood'', Str ''Optimistic, energetic, ambitious.''),
      (''Planning'', Str ''Cautious, planned, looks to the future.'')]], 1, 2)"
  by (simp add: rule_defs heap_defs np_clip_def scenario_features_def scores_def)

section \<open>The extractor stores what its value-level twin computes\<close>

lemma update_feats:
  "AList.update ''pressure'' (Num v) (feats p l s b w g m) = feats v l s b w g m"
  "AList.update ''letter_size'' (Num v) (feats p l s b w g m) = feats p v s b w g m"
  "AList.update ''slant'' (Num v) (feats p l s b w g m) = feats p l v b w g m"
  "AList.update ''baseline_slope'' (Num v) (feats p l s b w g m) = feats p l s v w g m"
  "AList.update ''word_spacing'' (Num v) (feats p l s b w g m) = feats p l s b v g m"
  "AList.update ''line_spacing'' (Num v) (feats p l s b w g m) = feats p l s b w v m"
  "AList.update ''left_margin'' (Num v) (feats p l s b w g m) = feats p l s b w g v"
  by (simp_all add: feats_def)

lemma default_feats: "default_features = feats 0 0 0 0 0 0 0"
  by (simp add: default_features_def feats_def)

lemma dict_set_last: "dict_set (h @ [fd]) (length h) k v = h @ [AList.update k v fd]"
  by (simp add: dict_set_def)

lemma pen_pressure_eq:
  "pen_pressure (h @ [feats p l s b w g m]) (length h) ink =
   map_option (\<lambda>p'. h @ [feats p' l s b w g m])
     (guarded (list_ex (\<lambda>p. p \<noteq> 0) ink) (np_mean (map (\<lambda>p. of_nat (unat p)) ink)) p)"
  by (cases "np_mean (map (\<lambda>p. of_nat (unat p)) ink)")
     (simp_all add: pen_pressure_def guarded_def dict_set_last update_feats)

lemma letter_size_and_slant_eq:
  "letter_size_and_slant (h @ [feats p l s b w g m]) (length h) heights word_angles =
   guarded (heights \<noteq> []) (np_median (map of_int heights)) l \<bind> (\<lambda>l'.
   guarded (word_angles \<noteq> []) (np_median word_angles) s \<bind> (\<lambda>s'.
   Some (h @ [feats p l' s' b w g m])))"
  by (cases "np_median (map of_int heights)"; cases "np_median word_angles")
     (simp_all add: letter_size_and_slant_def guarded_def dict_set_last update_feats)

lemma margins_spacing_baseline_eq:
  "margins_spacing_baseline (h @ [feats p l s 0 0 0 0]) (length h) word_bboxes =
   map_option (\<lambda>(b', w', g', m'). h @ [feats p l s b' w' g' m']) (layout_values word_bboxes)"
proof (cases "group_words_by_line word_bboxes")
  case None
  then show ?thesis by (simp add: margins_spacing_baseline_def layout_values_def)
next
  case (Some L)
  show ?thesis
  proof (cases "measure_lines L ([], [], [], [])")
    case None
    with Some show ?thesis by (simp add: margins_spacing_baseline_def layout_values_def)
  next
    case (Some r)
    obtain M G S Y where r: "r = (M, G, S, Y)" by (cases r) auto
    show ?thesis
      using \<open>group_words_by_line word_bboxes = Some L\<close> Some
      by (cases "np_median (map of_int G)"; cases "np_median (map of_int M)";
          cases "np_median S"; cases "np_median (np_diff Y)")
         (simp_all add: r margins_spacing_baseline_def layout_values_def guarded_def
            dict_set_last update_feats)
  qed
qed

lemma sort_key_Nil_iff: "(sort_key f xs = []) = (xs = [])"
  using length_sort [of f xs] by (cases xs) auto

lemma extract_eq:
  "extract_graphological_features h img lines =
   map_option (\<lambda>F. (h @ [F], length h)) (feature_values img)"
proof (cases "contours img = []")
  case True
  then show ?thesis
    by (simp add: extract_graphological_features_def feature_values_def new_dict_def)
next
  case False
  obtain B H A where c: "collect_words (word_contours img) ([], [], []) = (B, H, A)"
    by (cases "collect_words (word_contours img) ([], [], [])") auto
  let ?p = "guarded (list_ex (\<lambda>p. p \<noteq> 0) (ink_pixels img))
               (np_mean (map (\<lambda>p. of_nat (unat p)) (ink_pixels img))) 0"
  let ?l = "guarded (H \<noteq> []) (np_median (map of_int H)) 0"
  let ?s = "guarded (A \<noteq> []) (np_median A) 0"
  let ?v = "layout_values (sort_key (\<lambda>(x, y, w, h). (y, x)) B)"
  show ?thesis
  proof (cases ?p)
    case None
    with False show ?thesis
      by (simp add: extract_graphological_features_def feature_values_def new_dict_def
          default_feats pen_pressure_eq)
  next
    case p: (Some p)
    show ?thesis
    proof (cases ?l)
      case None
      with False p c show ?thesis
        by (simp add: extract_graphological_features_def feature_values_def new_dict_def
            default_feats pen_pressure_eq letter_size_and_slant_eq)
    next
      case l: (Some l)
      show ?thesis
      proof (cases ?s)
        case None
        with False p c l show ?thesis
          by (simp add: extract_graphological_features_def feature_values_def new_dict_def
              default_feats pen_pressure_eq letter_size_and_slant_eq)
      next
        case s: (Some s)
        show ?thesis
        proof (cases ?v)
          case None
          with False p c l s show ?thesis
            by (simp add: extract_graphological_features_def feature_values_def new_dict_def
                default_feats pen_pressure_eq letter_size_and_slant_eq
                margins_spacing_baseline_eq Let_def sort_key_Nil_iff)
        next
          case (Some v)
          obtain b w g m where "v = (b, w, g, m)" by (cases v) auto
          with False p c l s Some show ?thesis
            by (simp add: extract_graphological_features_def feature_values_def new_dict_def
                default_feats pen_pressure_eq letter_size_and_slant_eq
                margins_spacing_baseline_eq Let_def sort_key_Nil_iff)
        qed
      qed
    qed
  qed
qed

section \<open>Samples, medians, lines\<close>

lemma collect_words_eq:
  "collect_words cs (B, H, A) =
   (B @ word_boxes cs, H @ map box_height (word_boxes cs), A @ retained_angles cs)"
proof (induction cs arbitrary: B H A)
  case Nil
  show ?case by (simp add: word_boxes_def retained_angles_def)
next
  case (Cons c cs)
  obtain x y w h where r: "bounding_rect c = (x, y, w, h)" by (cases "bounding_rect c") auto
  show ?case
    by (simp add: r Cons.IH word_boxes_def retained_angles_def passes_filter_def
        adjusted_angle_def box_height_def Let_def add.commute)
qed

lemma np_median_Some:
  assumes "xs \<noteq> []"
  shows "\<exists>m. np_median xs = Some m"
proof (cases "odd (length xs)")
  case True
  with assms have "np_median xs = Some (sort xs ! (length xs div 2))"
    by (simp add: np_median_def Let_def)
  then show ?thesis ..
next
  case False
  with assms have
    "np_median xs = Some ((sort xs ! (length xs div 2 - 1) + sort xs ! (length xs div 2)) / 2)"
    by (simp add: np_median_def Let_def)
  then show ?thesis ..
qed

lemma np_median_None: "np_median [] = None"
  by (simp add: np_median_def)

lemma guarded_median: "guarded (xs \<noteq> []) (np_median xs) 0 = Some (median_or_zero xs)"
proof (cases "xs = []")
  case True
  then show ?thesis by (simp add: guarded_def median_or_zero_def np_median_None)
next
  case False
  with np_median_Some obtain m where "np_median xs = Some m" by blast
  with False show ?thesis by (simp add: guarded_def median_or_zero_def)
qed

lemma guarded_median_len: "guarded (length xs > 0) (np_median xs) 0 = Some (median_or_zero xs)"
  using guarded_median [of xs] by simp

lemma sorted_nth_bounds:
  assumes "\<forall>x\<in>set xs. lo < x \<and> x < hi" and "i < length xs"
  shows "lo < sort xs ! i \<and> sort xs ! i < (hi::rat)"
proof -
  have "sort xs ! i \<in> set (sort xs)" using assms(2) by (intro nth_mem) simp
  then show ?thesis using assms(1) by simp
qed

lemma np_median_bounds:
  assumes "np_median xs = Some m" and "\<forall>x\<in>set xs. lo < x \<and> x < hi"
  shows "lo < m \<and> m < hi"
proof -
  from assms(1) have ne: "xs \<noteq> []" by (auto simp: np_median_def split: if_splits)
  then have len: "0 < length xs" by simp
  show ?thesis
  proof (cases "odd (length xs)")
    case True
    then have "m = sort xs ! (length xs div 2)"
      using assms(1) ne by (simp add: np_median_def Let_def)
    moreover have "length xs div 2 < length xs" using len by simp
    ultimately show ?thesis using sorted_nth_bounds [OF assms(2)] by blast
  next
    case False
    then have m: "m = (sort xs ! (length xs div 2 - 1) + sort xs ! (length xs div 2)) / 2"
      using assms(1) ne by (simp add: np_median_def Let_def)
    have "length xs div 2 < length xs" "length xs div 2 - 1 < length xs" using len by arith+
    then have "lo < sort xs ! (length xs div 2) \<and> sort xs ! (length xs div 2) < hi"
      "lo < sort xs ! (length xs div 2 - 1) \<and> sort xs ! (length xs div 2 - 1) < hi"
      using sorted_nth_bounds [OF assms(2)] by blast+
    then show ?thesis unfolding m by auto
  qed
qed

lemma retained_angles_bounds: "\<forall>a\<in>set (retained_angles cs). - 45 < a \<and> a < 45"
  by (auto simp: retained_angles_def)

lemma np_polyfit_slope_Some:
  assumes "xs \<noteq> []" and "length xs = length ys" and "\<forall>x\<in>set xs. 0 < x"
  shows "\<exists>m. np_polyfit_slope xs ys = Some m"
proof -
  from assms(1,3) have "hd xs \<noteq> 0" by (cases xs) auto
  with assms(1,2) show ?thesis by (simp add: np_polyfit_slope_def Let_def)
qed

lemma centre_positive:
  assumes "\<forall>b\<in>set line. valid_box b"
  shows "\<forall>c\<in>set (map (\<lambda>(x, y, w, h). of_int x + of_int w / 2) line). 0 < (c::rat)"
proof
  fix c :: rat
  assume "c \<in> set (map (\<lambda>(x, y, w, h). of_int x + of_int w / 2) line)"
  then obtain x y w h where b: "(x, y, w, h) \<in> set line" and c: "c = of_int x + of_int w / 2"
    by auto
  from assms b have "0 \<le> x" "0 < w" by (auto simp: valid_box_def)
  then have "(0::rat) \<le> of_int x" "(0::rat) < of_int w / 2" by simp_all
  then show "0 < c" unfolding c by linarith
qed

lemma measure_lines_Some:
  assumes "\<forall>line\<in>set ls. \<forall>b\<in>set line. valid_box b"
  shows "\<exists>r. measure_lines ls acc = Some r"
  using assms
proof (induction ls arbitrary: acc)
  case Nil
  show ?case by (intro exI) simp
next
  case (Cons line ls)
  obtain M G S Y where acc: "acc = (M, G, S, Y)" using prod_cases4 by blast
  from Cons.prems have tl: "\<forall>line\<in>set ls. \<forall>b\<in>set line. valid_box b" by simp
  show ?case
  proof (cases line)
    case Nil
    with Cons.IH [OF tl] show ?thesis by (simp add: acc)
  next
    case (Cons b bs)
    obtain x0 y0 w0 h0 where b: "b = (x0, y0, w0, h0)" by (cases b) auto
    let ?px = "map (\<lambda>(x, y, w, h). of_int x + of_int w / 2) line :: rat list"
    let ?py = "map (\<lambda>(x, y, w, h). of_int (y + h)) line :: rat list"
    show ?thesis
    proof (cases "length line > 1")
      case True
      from Cons.prems have "\<forall>b\<in>set line. valid_box b" by simp
      from centre_positive [OF this] have pos: "\<forall>c\<in>set ?px. 0 < c" .
      have "?px \<noteq> []" "length ?px = length ?py" "?py \<noteq> []" using Cons by simp_all
      with pos np_polyfit_slope_Some [of ?px ?py] np_median_Some [of ?py]
      obtain m c where m: "np_polyfit_slope ?px ?py = Some m" and c: "np_median ?py = Some c"
        by blast
      from Cons.IH [OF tl, of "(M @ [x0], gaps_of_line line G, S @ [m], Y @ [c])"]
      show ?thesis using True m c Cons b by (simp add: acc Let_def)
    next
      case False
      from Cons.IH [OF tl, of "(M @ [x0], gaps_of_line line G, S, Y)"]
      show ?thesis using False Cons b by (simp add: acc Let_def)
    qed
  qed
qed

lemma measure_lines_single:
  "\<forall>line\<in>set ls. length line < 2 \<Longrightarrow>
   measure_lines ls (M, G, S, Y) =
     Some (M @ map (\<lambda>line. fst (hd line)) (filter (\<lambda>line. line \<noteq> []) ls), G, S, Y)"
proof (induction ls arbitrary: M)
  case Nil
  show ?case by simp
next
  case (Cons line ls)
  then have tl: "\<forall>line\<in>set ls. length line < 2" and len: "length line < 2" by simp_all
  show ?case
  proof (cases line)
    case Nil
    with Cons.IH [OF tl] show ?thesis by simp
  next
    case (Cons b bs)
    with len have bs: "bs = []" by simp
    obtain x0 y0 w0 h0 where b: "b = (x0, y0, w0, h0)" by (cases b) auto
    from Cons.IH [OF tl, of "M @ [x0]"] show ?thesis by (simp add: Cons bs b)
  qed
qed

lemma group_loop_subset:
  "group_loop bs (L, cl, cy) = (L', cl', cy') \<Longrightarrow>
   \<forall>l\<in>set L. set l \<subseteq> U \<Longrightarrow> set cl \<subseteq> U \<Longrightarrow> set bs \<subseteq> U \<Longrightarrow>
   (\<forall>l\<in>set L'. set l \<subseteq> U) \<and> set cl' \<subseteq> U"
proof (induction bs arbitrary: L cl cy)
  case Nil
  then show ?case by simp
next
  case (Cons b bs)
  obtain x y w h where b: "b = (x, y, w, h)" by (cases b) auto
  show ?case
  proof (cases "of_int \<bar>y - cy\<bar> > times_0_7 h")
    case True
    with Cons.prems(1) b have
      "group_loop bs (L @ [sort_key fst cl], [(x, y, w, h)], y) = (L', cl', cy')" by simp
    from Cons.IH [OF this] Cons.prems(2-4) b show ?thesis by simp
  next
    case False
    with Cons.prems(1) b have
      "group_loop bs (L, cl @ [(x, y, w, h)], cy) = (L', cl', cy')" by simp
    from Cons.IH [OF this] Cons.prems(2-4) b show ?thesis by simp
  qed
qed

lemma group_words_by_line_subset:
  assumes "group_words_by_line wb = Some ls"
  shows "\<forall>l\<in>set ls. set l \<subseteq> set wb"
proof (cases wb)
  case Nil
  with assms show ?thesis by (simp add: group_words_by_line_def)
next
  case (Cons b bs)
  obtain x0 y0 w0 h0 where b: "b = (x0, y0, w0, h0)" by (cases b) auto
  obtain L cl cy where g: "group_loop wb ([], [], y0) = (L, cl, cy)"
    by (cases "group_loop wb ([], [], y0)") auto
  from group_loop_subset [OF g, of "set wb"]
  have "(\<forall>l\<in>set L. set l \<subseteq> set wb) \<and> set cl \<subseteq> set wb" by simp
  moreover from assms g Cons b have "ls = L @ [sort_key fst cl]"
    by (simp add: group_words_by_line_def)
  ultimately show ?thesis by auto
qed

text \<open>
  At the boundary: a gap of 14 below a box of height 20 stays on the line, since the float
  product is 14.0; a gap of 63 below a box of height 90 opens a new line, since the float
  product is just below 63.
\<close>

lemma boundary_gaps:
  "group_words_by_line [(x1, 0, w1, 20), (x2, 14, w2, 20)] =
     Some [sort_key fst [(x1, 0, w1, 20), (x2, 14, w2, 20)]]"
  "group_words_by_line [(x1, 0, w1, 90), (x2, 63, w2, 90)] =
     Some [[(x1, 0, w1, 90)], [(x2, 63, w2, 90)]]"
  by (simp_all add: group_words_by_line_def times_0_7_values)

lemma group_words_by_line_Some: "wb \<noteq> [] \<Longrightarrow> \<exists>ls. group_words_by_line wb = Some ls"
  by (cases wb) (auto simp: group_words_by_line_def split: prod.splits)

lemma guarded_mean:
  "guarded (list_ex (\<lambda>p. p \<noteq> 0) ink) (np_mean (map unsigned ink)) 0 =
   Some (pressure_of ink)"
  by (cases ink) (auto simp: guarded_def pressure_of_def np_mean_def)

lemma guarded_False: "guarded False v d = Some d"
  by (simp add: guarded_def)

lemma guarded_median_map:
  "guarded (xs \<noteq> []) (np_median (map f xs)) 0 = Some (median_or_zero (map f xs))"
  using guarded_median [of "map f xs"] by simp

lemma word_boxes_Nil_retained: "word_boxes cs = [] \<Longrightarrow> retained_angles cs = []"
  by (simp add: word_boxes_def retained_angles_def)

lemma layout_values_lines:
  assumes "word_boxes cs \<noteq> []"
  shows "layout_values (sort_key (\<lambda>(x, y, w, h). (y, x)) (word_boxes cs)) =
    measure_lines (word_lines cs) ([], [], [], []) \<bind> (\<lambda>(M, G, S, Y).
      Some (median_or_zero S, median_or_zero (map of_int G), median_or_zero (np_diff Y),
            median_or_zero (map of_int M)))"
proof -
  from assms have "sort_key (\<lambda>(x, y, w, h). (y, x)) (word_boxes cs) \<noteq> []"
    by (simp add: sort_key_Nil_iff)
  from group_words_by_line_Some [OF this] obtain ls where
    ls: "group_words_by_line (sort_key (\<lambda>(x, y, w, h). (y, x)) (word_boxes cs)) = Some ls"
    by blast
  then have wl: "word_lines cs = ls" by (simp add: word_lines_def)
  show ?thesis
  proof (cases "measure_lines ls ([], [], [], [])")
    case None
    with ls wl show ?thesis by (simp add: layout_values_def)
  next
    case (Some r)
    obtain M G S Y where "r = (M, G, S, Y)" using prod_cases4 by blast
    with Some ls wl show ?thesis
      by (simp add: layout_values_def guarded_median guarded_median_len guarded_median_map)
  qed
qed

lemma feature_values_eq:
  "feature_values img =
     (if contours img = [] then Some default_features
      else if word_boxes (word_contours img) = [] then
        Some (feats (pressure_of (ink_pixels img)) 0 0 0 0 0 0)
      else
        measure_lines (word_lines (word_contours img)) ([], [], [], []) \<bind> (\<lambda>(M, G, S, Y).
          Some (feats (pressure_of (ink_pixels img))
                  (median_or_zero (map of_int (map box_height (word_boxes (word_contours img)))))
                  (median_or_zero (retained_angles (word_contours img)))
                  (median_or_zero S) (median_or_zero (map of_int G))
                  (median_or_zero (np_diff Y)) (median_or_zero (map of_int M)))))"
proof (cases "contours img = []")
  case True
  then show ?thesis by (simp add: feature_values_def)
next
  case False
  show ?thesis
  proof (cases "word_boxes (word_contours img) = []")
    case True
    with False word_boxes_Nil_retained [OF True] show ?thesis
      by (simp add: feature_values_def collect_words_eq guarded_mean guarded_False)
  next
    case wb: False
    show ?thesis
    proof (cases "measure_lines (word_lines (word_contours img)) ([], [], [], [])")
      case None
      with False wb show ?thesis
        by (simp add: feature_values_def collect_words_eq guarded_mean guarded_median
            guarded_median_map layout_values_lines)
    next
      case (Some r)
      obtain M G S Y where "r = (M, G, S, Y)" using prod_cases4 by blast
      with Some False wb show ?thesis
        by (simp add: feature_values_def collect_words_eq guarded_mean guarded_median
            guarded_median_map layout_values_lines)
    qed
  qed
qed

lemma word_lines_valid:
  assumes "valid_view img"
  shows "\<forall>line\<in>set (word_lines (word_contours img)). \<forall>b\<in>set line. valid_box b"
proof (cases "group_words_by_line
    (sort_key (\<lambda>(x, y, w, h). (y, x)) (word_boxes (word_contours img)))")
  case None
  then show ?thesis by (simp add: word_lines_def)
next
  case (Some ls)
  from group_words_by_line_subset [OF Some]
  have "\<forall>l\<in>set ls. set l \<subseteq> set (word_boxes (word_contours img))" by simp
  moreover have "\<forall>b\<in>set (word_boxes (word_contours img)). valid_box b"
    using assms by (auto simp: valid_view_def word_boxes_def list_all_iff)
  ultimately show ?thesis using Some by (auto simp: word_lines_def)
qed

lemma feature_values_valid:
  assumes "valid_view img"
  shows "\<exists>p l s b w g m. feature_values img = Some (feats p l s b w g m)"
proof -
  from measure_lines_Some [OF word_lines_valid [OF assms], of "([], [], [], [])"]
  obtain r where "measure_lines (word_lines (word_contours img)) ([], [], [], []) = Some r"
    by blast
  moreover obtain M G S Y where "r = (M, G, S, Y)" using prod_cases4 by blast
  ultimately show ?thesis
    by (simp add: feature_values_eq default_feats; blast)
qed

lemma np_diff_short: "length xs < 2 \<Longrightarrow> np_diff xs = []"
  by (cases xs) (auto simp: np_diff_def)

lemma median_or_zero_Nil: "median_or_zero [] = 0"
  by (simp add: median_or_zero_def np_median_None)

lemma feats_keys: "map fst (feats p l s b w g m) = feature_names"
  by (simp add: feats_def feature_names_def default_features_def)

lemma feats_numbers: "list_all is_number (map snd (feats p l s b w g m))"
  by (simp add: feats_def)

lemma sample_lines:
  "word_lines (word_contours sample_view) =
     [[(5, 0, 30, 22), (50, 2, 30, 20)], [(7, 50, 30, 20), (60, 52, 30, 20), (100, 54, 20, 30)]]"
  by (simp add: word_lines_def word_boxes_def sample_view_def passes_filter_def
      group_words_by_line_def times_0_7_values)

lemma sample_retained: "retained_angles (word_contours sample_view) = [12, - 10, 3, 5]"
  by (simp add: retained_angles_def sample_view_def passes_filter_def adjusted_angle_def)

lemma sample_run:
  "extract_graphological_features h sample_view lines =
     Some (h @ [feats 117 20 4 (293/3926) 15 50 6], length h)"
  by (simp add: extract_eq feature_values_eq sample_lines sample_retained)
     (simp add: sample_view_def word_boxes_def passes_filter_def box_height_def pressure_of_def
        median_or_zero_def np_median_def np_polyfit_slope_def np_diff_def Let_def)

lemma num_get_feats:
  "num_get (h @ [feats p l s b w g m]) (length h) ''slant'' = Some s"
  by (simp add: num_get_def dict_get_def feats_def)

lemma analyse_local:
  "(analyse h img lines = None \<and> analyse [] img lines = None) \<or>
   (\<exists>F Q D. analyse h img lines =
               Some (h @ [F, Q, D], length h, Suc (length h), Suc (Suc (length h))) \<and>
            analyse [] img lines = Some ([F, Q, D], 0, 1, 2))"
proof (cases "feature_values img")
  case None
  then show ?thesis by (simp add: analyse_def extract_eq)
next
  case (Some F)
  have e: "extract_graphological_features h img lines = Some (h @ [F], length h)"
    "extract_graphological_features [] img lines = Some ([F], 0)"
    using Some by (simp_all add: extract_eq)
  have "length h < length (h @ [F])" by simp
  from gpp_local [OF this] show ?thesis
  proof
    assume "get_personality_profile (h @ [F]) (length h) = None \<and>
            get_personality_profile [(h @ [F]) ! length h] 0 = None"
    with e show ?thesis by (simp add: analyse_def)
  next
    assume "\<exists>Q D. get_personality_profile (h @ [F]) (length h) =
                  Some ((h @ [F]) @ [Q, D], length (h @ [F]), Suc (length (h @ [F]))) \<and>
                get_personality_profile [(h @ [F]) ! length h] 0 =
                  Some ([(h @ [F]) ! length h, Q, D], 1, 2)"
    then obtain Q D where
      "get_personality_profile (h @ [F]) (length h) =
         Some (h @ [F, Q, D], Suc (length h), Suc (Suc (length h)))"
      "get_personality_profile [F] 0 = Some ([F, Q, D], 1, 2)"
      by auto
    with e show ?thesis by (simp add: analyse_def)
  qed
qed

lemma sample_profile:
  "get_personality_profile [feats 117 20 4 (293/3926) 15 50 6] 0 = Some (sample_store, 1, 2)"
  by (simp add: rule_defs heap_defs np_clip_def feats_def scores_def sample_store_def)

lemma sample_analyse: "analyse [] sample_view () = Some (sample_store, 0, 1, 2)"
  using sample_run [of "[]" "()"] sample_profile by (simp add: analyse_def)

lemma measure_single_line:
  "line \<noteq> [] \<Longrightarrow> length line < 2 \<Longrightarrow>
   measure_lines (line # ls) (M, G, S, Y) = measure_lines ls (M @ [fst (hd line)], G, S, Y)"
  by (cases line) (auto simp: Let_def)

section \<open>The samples in closed form\<close>

lemma gaps_of_line_eq: "gaps_of_line line G = G @ line_gaps line"
  by (induction line G rule: gaps_of_line.induct) (simp_all add: line_gaps_def Let_def)

lemma points_maps:
  "map (\<lambda>(x, y, w, h). of_int x + of_int w / 2) line = map centre_x line"
  "map (\<lambda>(x, y, w, h). of_int (y + h)) line = map bottom_y line"
  "map (\<lambda>(x, y, w, h). of_int y + of_int h) line = map bottom_y line"
  by (auto simp: centre_x_def bottom_y_def)

lemma measure_lines_eq:
  assumes "\<forall>line\<in>set ls. \<forall>b\<in>set line. valid_box b"
  shows "measure_lines ls (M, G, S, Y) =
     Some (M @ line_starts ls, G @ gap_samples ls, S @ slope_samples ls, Y @ position_samples ls)"
  using assms
proof (induction ls arbitrary: M G S Y)
  case Nil
  show ?case by (simp add: line_starts_def gap_samples_def slope_samples_def position_samples_def)
next
  case (Cons line ls)
  from Cons.prems have tl: "\<forall>line\<in>set ls. \<forall>b\<in>set line. valid_box b" by simp
  show ?case
  proof (cases line)
    case Nil
    with Cons.IH [OF tl] show ?thesis
      by (simp add: line_starts_def gap_samples_def slope_samples_def position_samples_def
          line_gaps_def)
  next
    case (Cons b bs)
    obtain x0 y0 w0 h0 where b: "b = (x0, y0, w0, h0)" using prod_cases4 by blast
    show ?thesis
    proof (cases "length line > 1")
      case True
      from Cons.prems have "\<forall>b\<in>set line. valid_box b" by simp
      from centre_positive [OF this] have pos: "\<forall>c\<in>set (map centre_x line). 0 < c"
        by (simp only: points_maps(1))
      have "map centre_x line \<noteq> []" "length (map centre_x line) = length (map bottom_y line)"
        "map bottom_y line \<noteq> []" using Cons by simp_all
      with pos np_polyfit_slope_Some [of "map centre_x line" "map bottom_y line"]
        np_median_Some [of "map bottom_y line"]
      obtain m c where m: "np_polyfit_slope (map centre_x line) (map bottom_y line) = Some m"
        and c: "np_median (map bottom_y line) = Some c"
        by blast
      have "measure_lines (line # ls) (M, G, S, Y) =
          measure_lines ls (M @ [x0], G @ line_gaps line, S @ [m], Y @ [c])"
        using True m c Cons b
        by (simp add: Let_def points_maps gaps_of_line_eq centre_x_def bottom_y_def)
      also have "\<dots> = Some ((M @ [x0]) @ line_starts ls, (G @ line_gaps line) @ gap_samples ls,
          (S @ [m]) @ slope_samples ls, (Y @ [c]) @ position_samples ls)"
        by (rule Cons.IH [OF tl])
      finally show ?thesis using True m c Cons b
        by (simp add: line_starts_def gap_samples_def slope_samples_def position_samples_def
            line_slope_def median_or_zero_def)
    next
      case False
      then have bs: "bs = []" using Cons by simp
      have "measure_lines (line # ls) (M, G, S, Y) = measure_lines ls (M @ [x0], G, S, Y)"
        using Cons b bs by (simp add: Let_def)
      also have "\<dots> = Some ((M @ [x0]) @ line_starts ls, G @ gap_samples ls,
          S @ slope_samples ls, Y @ position_samples ls)"
        by (rule Cons.IH [OF tl])
      finally show ?thesis using Cons b bs
        by (simp add: line_starts_def gap_samples_def slope_samples_def position_samples_def
            line_gaps_def)
    qed
  qed
qed

lemma extract_valid_eq:
  assumes "contours img \<noteq> []" and "valid_view img"
  shows "extract_graphological_features h img lines =
     Some (h @ [feats (pressure_of (ink_pixels img))
                  (median_or_zero (map of_int (map box_height (word_boxes (word_contours img)))))
                  (median_or_zero (retained_angles (word_contours img)))
                  (median_or_zero (slope_samples (word_lines (word_contours img))))
                  (median_or_zero (map of_int (gap_samples (word_lines (word_contours img)))))
                  (median_or_zero (np_diff (position_samples (word_lines (word_contours img)))))
                  (median_or_zero (map of_int (line_starts (word_lines (word_contours img)))))],
           length h)"
proof (cases "word_boxes (word_contours img) = []")
  case True
  then have "word_lines (word_contours img) = []"
    by (simp add: word_lines_def group_words_by_line_def)
  with True assms(1) word_boxes_Nil_retained [OF True] show ?thesis
    by (simp add: extract_eq feature_values_eq line_starts_def gap_samples_def
        slope_samples_def position_samples_def np_diff_def median_or_zero_Nil)
next
  case False
  from measure_lines_eq [OF word_lines_valid [OF assms(2)], of "[]" "[]" "[]" "[]"]
  have "measure_lines (word_lines (word_contours img)) ([], [], [], []) =
      Some (line_starts (word_lines (word_contours img)),
            gap_samples (word_lines (word_contours img)),
            slope_samples (word_lines (word_contours img)),
            position_samples (word_lines (word_contours img)))"
    by simp
  with False assms(1) show ?thesis
    by (simp add: extract_eq feature_values_eq)
qed


section \<open>The properties\<close>

text \<open>
  C1. For every feature vector, stored at any address of any store, also one with extreme
  values, \<open>get_personality_profile\<close> returns, and the quantitative dictionary it
  returns has exactly the six trait names as keys, each with a number between 0.1 and 1.0
  inclusive.
\<close>

theorem scores_within_bounds:
  assumes "features < length h" and "has_features (h ! features)"
  shows "\<exists>h' q d. get_personality_profile h features = Some (h', q, d) \<and>
           map fst (h' ! q) = trait_names \<and> list_all score_in_range (map snd (h' ! q))"
proof -
  from gpp_small [OF assms(2)] obtain Q D where
    s: "get_personality_profile [h ! features] 0 = Some ([h ! features, Q, D], 1, 2)"
    and Q: "map fst Q = trait_names" "list_all score_in_range (map snd Q)" by blast
  from gpp_local [OF assms(1)] s
  have "get_personality_profile h features = Some (h @ [Q, D], length h, Suc (length h))"
    by auto
  with Q show ?thesis by simp
qed

theorem scores_within_bounds_witness:
  "0 < length [extreme_features] \<and> has_features ([extreme_features] ! 0) \<and>
   (\<exists>h' q d. get_personality_profile [extreme_features] 0 = Some (h', q, d) \<and>
           map fst (h' ! q) = trait_names \<and> list_all score_in_range (map snd (h' ! q)))"
  using scores_within_bounds [of 0 "[extreme_features]"]
  by (simp add: has_features_def feature_names_def default_features_def extreme_features_def is_num_def)

text \<open>
  C2, as the code has it. For the all-default feature vector (every feature 0) the
  quantitative dictionary is Sociability 0.4, Focus 0.9, Intensity 0.8, Optimism 0.5,
  Discipline 1.0, Spontaneity 0.9: the letter size 0 is below 25, the pressure 0 is below 120,
  the straight baseline and the vertical slant give 0.8 + 0.2, and the margin 0 is below 20.
  Only Optimism stays at 0.5.
\<close>

theorem default_profile:
  assumes "features < length h" and "h ! features = default_features"
  shows "quantitative_of (get_personality_profile h features) =
         Some (scores (4/10) (9/10) (8/10) (5/10) 1 (9/10))"
  using gpp_local [OF assms(1)] by (auto simp: assms(2) gpp_default quantitative_of_def)

theorem default_profile_witness:
  "0 < length [default_features] \<and> [default_features] ! 0 = default_features \<and>
   quantitative_of (get_personality_profile [default_features] 0) =
         Some (scores (4/10) (9/10) (8/10) (5/10) 1 (9/10))"
  using default_profile [of 0 "[default_features]"] by simp

text \<open>
  The profile that is all 0.5 except for Sociability 0.4 is not the one returned.
\<close>

theorem default_profile_counterexample:
  "quantitative_of (get_personality_profile [default_features] 0) \<noteq>
   Some (scores (4/10) (5/10) (5/10) (5/10) (5/10) (5/10))"
  by (simp add: gpp_default quantitative_of_def scores_def)

text \<open>
  C3, as the code has it. For the feature vector with slant 8, word spacing 5, letter size 30,
  pressure 100, baseline slope 0.08, left margin 50 and line spacing 0 the quantitative
  dictionary is Sociability 1.0, Focus 0.5, Intensity 0.8, Optimism 0.8, Discipline 0.3,
  Spontaneity 0.2: the word spacing 5 is below half the letter size, 15, so the narrow-spacing
  rule adds 0.2 to the 0.8 of the slant rule.
\<close>

theorem scenario_profile:
  assumes "features < length h" and "h ! features = scenario_features"
  shows "quantitative_of (get_personality_profile h features) =
         Some (scores 1 (5/10) (8/10) (8/10) (3/10) (2/10))"
  using gpp_local [OF assms(1)] by (auto simp: assms(2) gpp_scenario quantitative_of_def)

theorem scenario_profile_witness:
  "0 < length [scenario_features] \<and> [scenario_features] ! 0 = scenario_features \<and>
   quantitative_of (get_personality_profile [scenario_features] 0) =
         Some (scores 1 (5/10) (8/10) (8/10) (3/10) (2/10))"
  using scenario_profile [of 0 "[scenario_features]"] by simp

text \<open>
  The profile with Sociability 0.8 is not the one returned.
\<close>

theorem scenario_profile_counterexample:
  "quantitative_of (get_personality_profile [scenario_features] 0) \<noteq>
   Some (scores (8/10) (5/10) (8/10) (8/10) (3/10) (2/10))"
  by (simp add: gpp_scenario quantitative_of_def scores_def)

text \<open>
  C4. The grouping puts word boxes at \<open>y\<close> = 0, 2, 50, 52, each of height 20, on two
  lines of two words each (each line ordered by \<open>x\<close>), whatever their \<open>x\<close> and
  width; and it puts boxes at \<open>y\<close> = 0 and 16 of height 20 on two lines, since 16 is
  more than 0.7 times 20.
\<close>

theorem grouping_examples:
  "group_words_by_line (sort_key (\<lambda>(x, y, w, h). (y, x))
      [(x1, 0, w1, 20), (x2, 2, w2, 20), (x3, 50, w3, 20), (x4, 52, w4, 20)]) =
     Some [sort_key fst [(x1, 0, w1, 20), (x2, 2, w2, 20)],
           sort_key fst [(x3, 50, w3, 20), (x4, 52, w4, 20)]] \<and>
   group_words_by_line (sort_key (\<lambda>(x, y, w, h). (y, x))
      [(x5, 0, w5, 20), (x6, 16, w6, 20)]) =
     Some [[(x5, 0, w5, 20)], [(x6, 16, w6, 20)]]"
  by (simp add: group_words_by_line_def times_0_7_values)

theorem grouping_examples_witness:
  "group_words_by_line (sort_key (\<lambda>(x, y, w, h). (y, x))
      [(5, 0, 30, 20), (50, 2, 30, 20), (7, 50, 30, 20), (60, 52, 30, 20)]) =
     Some [[(5, 0, 30, 20), (50, 2, 30, 20)], [(7, 50, 30, 20), (60, 52, 30, 20)]] \<and>
   group_words_by_line (sort_key (\<lambda>(x, y, w, h). (y, x))
      [(5, 0, 30, 20), (50, 16, 30, 20)]) =
     Some [[(5, 0, 30, 20)], [(50, 16, 30, 20)]]"
  using grouping_examples [of 5 30 50 30 7 30 60 30 5 30 50 30] by simp

text \<open>
  C5. For every valid view of a grey image and a binary mask, from any store,
  \<open>extract_graphological_features\<close> returns a dictionary with exactly the seven feature
  names as keys, each with a number: no routine is asked for the mean or median of an empty
  sample or for a fit that it cannot compute.
\<close>

theorem seven_finite_features:
  assumes "valid_view img"
  shows "\<exists>h' f. extract_graphological_features h img lines = Some (h', f) \<and>
           map fst (h' ! f) = feature_names \<and> list_all is_number (map snd (h' ! f))"
proof -
  from feature_values_valid [OF assms] obtain p l s b w g m where
    "feature_values img = Some (feats p l s b w g m)" by blast
  then have "extract_graphological_features h img lines =
      Some (h @ [feats p l s b w g m], length h)"
    by (simp add: extract_eq)
  then show ?thesis by (simp add: feats_keys feats_numbers)
qed

theorem seven_finite_features_witness:
  "valid_view sample_view \<and>
   (\<exists>h' f. extract_graphological_features [] sample_view () = Some (h', f) \<and>
           map fst (h' ! f) = feature_names \<and> list_all is_number (map snd (h' ! f)))"
  using seven_finite_features [of sample_view "[]" "()"]
  by (simp add: valid_view_def valid_box_def sample_view_def)

text \<open>
  C6. Degenerate input is answered, not refused, and what can be measured is measured.
  Without contours the result is the default dictionary. When no word box passes the size
  filter only the pressure is measured. When every line has fewer than two words, baseline
  slope, word spacing and line spacing stay 0 while pressure, letter size, slant and left
  margin are measured. When fewer than two lines have two words or more, the line spacing
  stays 0 while the six other features are the pressure and the medians of their samples.
  A line of one word adds its left margin and no other sample.
\<close>

theorem degenerate_input_defaults:
  "(contours img = [] \<longrightarrow>
      extract_graphological_features h img lines = Some (h @ [default_features], length h)) \<and>
   (contours img \<noteq> [] \<and> word_boxes (word_contours img) = [] \<longrightarrow>
      extract_graphological_features h img lines =
        Some (h @ [feats (pressure_of (ink_pixels img)) 0 0 0 0 0 0], length h)) \<and>
   (contours img \<noteq> [] \<and> list_all (\<lambda>line. length line < 2) (word_lines (word_contours img)) \<longrightarrow>
      extract_graphological_features h img lines =
        Some (h @ [feats (pressure_of (ink_pixels img))
                     (median_or_zero (map of_int (map box_height (word_boxes (word_contours img)))))
                     (median_or_zero (retained_angles (word_contours img)))
                     0 0 0
                     (median_or_zero (map of_int (line_starts (word_lines (word_contours img)))))],
              length h)) \<and>
   (contours img \<noteq> [] \<and> valid_view img \<and>
    length (filter (\<lambda>line. 1 < length line) (word_lines (word_contours img))) < 2 \<longrightarrow>
      extract_graphological_features h img lines =
        Some (h @ [feats (pressure_of (ink_pixels img))
                     (median_or_zero (map of_int (map box_height (word_boxes (word_contours img)))))
                     (median_or_zero (retained_angles (word_contours img)))
                     (median_or_zero (slope_samples (word_lines (word_contours img))))
                     (median_or_zero (map of_int (gap_samples (word_lines (word_contours img)))))
                     0
                     (median_or_zero (map of_int (line_starts (word_lines (word_contours img)))))],
              length h)) \<and>
   (line \<noteq> [] \<and> length line < 2 \<longrightarrow>
      measure_lines (line # ls) (M, G, S, Y) =
        measure_lines ls (M @ [fst (hd line)], G, S, Y))"
proof (intro conjI impI)
  assume "contours img = []"
  then show "extract_graphological_features h img lines = Some (h @ [default_features], length h)"
    by (simp add: extract_eq feature_values_eq)
next
  assume "contours img \<noteq> [] \<and> word_boxes (word_contours img) = []"
  then show "extract_graphological_features h img lines =
        Some (h @ [feats (pressure_of (ink_pixels img)) 0 0 0 0 0 0], length h)"
    by (simp add: extract_eq feature_values_eq)
next
  let ?cs = "word_contours img"
  assume a: "contours img \<noteq> [] \<and> list_all (\<lambda>line. length line < 2) (word_lines ?cs)"
  then have "\<forall>line\<in>set (word_lines ?cs). length line < 2" by (simp add: list_all_iff)
  from measure_lines_single [OF this, of "[]" "[]" "[]" "[]"]
  have m: "measure_lines (word_lines ?cs) ([], [], [], []) =
      Some (line_starts (word_lines ?cs), [], [], [])"
    by (simp add: line_starts_def)
  show "extract_graphological_features h img lines =
        Some (h @ [feats (pressure_of (ink_pixels img))
                     (median_or_zero (map of_int (map box_height (word_boxes ?cs))))
                     (median_or_zero (retained_angles ?cs))
                     0 0 0
                     (median_or_zero (map of_int (line_starts (word_lines ?cs))))],
              length h)"
  proof (cases "word_boxes ?cs = []")
    case True
    then have "word_lines ?cs = []"
      by (simp add: word_lines_def group_words_by_line_def)
    with True a word_boxes_Nil_retained [OF True] show ?thesis
      by (simp add: extract_eq feature_values_eq line_starts_def median_or_zero_Nil)
  next
    case False
    with a m show ?thesis
      by (simp add: extract_eq feature_values_eq median_or_zero_Nil np_diff_def)
  qed
next
  let ?cs = "word_contours img"
  assume a: "contours img \<noteq> [] \<and> valid_view img \<and>
      length (filter (\<lambda>line. 1 < length line) (word_lines ?cs)) < 2"
  then have "length (position_samples (word_lines ?cs)) < 2"
    by (simp add: position_samples_def)
  then have "median_or_zero (np_diff (position_samples (word_lines ?cs))) = 0"
    by (simp add: np_diff_short median_or_zero_Nil)
  with a extract_valid_eq [of img h lines]
  show "extract_graphological_features h img lines =
        Some (h @ [feats (pressure_of (ink_pixels img))
                     (median_or_zero (map of_int (map box_height (word_boxes ?cs))))
                     (median_or_zero (retained_angles ?cs))
                     (median_or_zero (slope_samples (word_lines ?cs)))
                     (median_or_zero (map of_int (gap_samples (word_lines ?cs))))
                     0
                     (median_or_zero (map of_int (line_starts (word_lines ?cs))))],
              length h)"
    by simp
next
  assume "line \<noteq> [] \<and> length line < 2"
  then have "line \<noteq> []" and "length line < 2" by simp_all
  then show "measure_lines (line # ls) (M, G, S, Y) =
      measure_lines ls (M @ [fst (hd line)], G, S, Y)"
    by (rule measure_single_line)
qed

theorem degenerate_input_defaults_witness:
  "contours blank_view = [] \<and>
   extract_graphological_features [] blank_view () = Some ([default_features], 0) \<and>
   contours specks_view \<noteq> [] \<and> word_boxes (word_contours specks_view) = [] \<and>
   extract_graphological_features [] specks_view () = Some ([feats 100 0 0 0 0 0 0], 0) \<and>
   valid_view column_view \<and> contours column_view \<noteq> [] \<and>
   list_all (\<lambda>line. length line < 2) (word_lines (word_contours column_view)) \<and>
   extract_graphological_features [] column_view () = Some ([feats 150 20 3 0 0 0 12], 0) \<and>
   valid_view one_line_view \<and> contours one_line_view \<noteq> [] \<and>
   word_lines (word_contours one_line_view) = [[(5, 0, 30, 20), (50, 4, 30, 20)]] \<and>
   length (filter (\<lambda>line. 1 < length line) (word_lines (word_contours one_line_view))) < 2 \<and>
   extract_graphological_features [] one_line_view () =
     Some ([feats 150 20 4 (4/45) 15 0 5], 0) \<and>
   measure_lines [[(10, 8, 24, 20)]] ([], [], [], []) = Some ([10], [], [], [])"
proof -
  have wl: "word_lines (word_contours column_view) = [[(10, 8, 24, 20)], [(14, 60, 24, 20)]]"
    by (simp add: word_lines_def word_boxes_def column_view_def passes_filter_def
        group_words_by_line_def times_0_7_values)
  have wb: "word_boxes (word_contours column_view) = [(10, 8, 24, 20), (14, 60, 24, 20)]"
    by (simp add: word_boxes_def column_view_def passes_filter_def)
  have ra: "retained_angles (word_contours column_view) = [3]"
    by (simp add: retained_angles_def column_view_def passes_filter_def adjusted_angle_def)
  have wl1: "word_lines (word_contours one_line_view) = [[(5, 0, 30, 20), (50, 4, 30, 20)]]"
    by (simp add: word_lines_def word_boxes_def one_line_view_def passes_filter_def
        group_words_by_line_def times_0_7_values)
  have wb1: "word_boxes (word_contours one_line_view) = [(50, 4, 30, 20), (5, 0, 30, 20)]"
    by (simp add: word_boxes_def one_line_view_def passes_filter_def)
  have ra1: "retained_angles (word_contours one_line_view) = [5, 3]"
    by (simp add: retained_angles_def one_line_view_def passes_filter_def adjusted_angle_def)
  have sl1: "slope_samples [[(5, 0, 30, 20), (50, 4, 30, 20)]] = [4/45]"
    by (simp add: slope_samples_def line_slope_def np_polyfit_slope_def centre_x_def
        bottom_y_def Let_def)
  have gp1: "gap_samples [[(5, 0, 30, 20), (50, 4, 30, 20)]] = [15]"
    by (simp add: gap_samples_def line_gaps_def)
  have 1: "contours blank_view = []" by (simp add: blank_view_def)
  have 2: "contours specks_view \<noteq> [] \<and> word_boxes (word_contours specks_view) = []"
    by (simp add: specks_view_def word_boxes_def passes_filter_def)
  have 3: "contours column_view \<noteq> [] \<and>
      list_all (\<lambda>line. length line < 2) (word_lines (word_contours column_view))"
    by (simp add: wl) (simp add: column_view_def)
  have v3: "valid_view column_view"
    by (simp add: column_view_def valid_view_def valid_box_def)
  have 4: "contours one_line_view \<noteq> [] \<and> valid_view one_line_view \<and>
      length (filter (\<lambda>line. 1 < length line) (word_lines (word_contours one_line_view))) < 2"
    by (simp add: wl1) (simp add: one_line_view_def valid_view_def valid_box_def)
  have p1: "pressure_of (ink_pixels specks_view) = 100"
    by (simp add: specks_view_def pressure_of_def)
  have p2: "pressure_of (ink_pixels column_view) = 150"
    by (simp add: column_view_def pressure_of_def)
  have p3: "pressure_of (ink_pixels one_line_view) = 150"
    by (simp add: one_line_view_def pressure_of_def)
  have m: "median_or_zero [20, 20] = 20" "median_or_zero [3] = 3" "median_or_zero [10, 14] = 12"
    "median_or_zero [5, 3] = 4" "median_or_zero [4/45] = 4/45" "median_or_zero [15] = 15"
    "median_or_zero [5] = 5"
    by (simp_all add: median_or_zero_def np_median_def Let_def)
  from degenerate_input_defaults [of blank_view "[]" "()"]
    degenerate_input_defaults [of specks_view "[]" "()"]
    degenerate_input_defaults [of column_view "[]" "()" "[(10, 8, 24, 20)]" "[]" "[]" "[]" "[]" "[]"]
    degenerate_input_defaults [of one_line_view "[]" "()"]
    1 2 3 v3 4
  show ?thesis
    by (simp add: p1 p2 p3 wl wb ra wl1 wb1 ra1 sl1 gp1 m line_starts_def box_height_def)
qed

text \<open>
  C7. A mask with contours and one word box of width 60 and height 60 at \<open>(x, y)\<close>
  gives letter size 60, word spacing 0, left margin \<open>x\<close>, baseline slope 0 and line
  spacing 0 (next to the pressure of the ink, and the slant: the angle if it is retained).
\<close>

theorem single_word_box:
  "extract_graphological_features h
     \<lparr>contours = c # cs, ink_pixels = ink,
      word_contours = [\<lparr>bounding_rect = (x, y, 60, 60), min_area_angle = a\<rparr>]\<rparr> lines =
   Some (h @ [feats (pressure_of ink) 60 (if \<bar>a\<bar> < 45 then a else 0) 0 0 0 (of_int x)], length h)"
proof -
  let ?cs = "[\<lparr>bounding_rect = (x, y, 60, 60), min_area_angle = a\<rparr>]"
  have wb: "word_boxes ?cs = [(x, y, 60, 60)]"
    by (simp add: word_boxes_def passes_filter_def)
  have wl: "word_lines ?cs = [[(x, y, 60, 60)]]"
    by (simp add: word_lines_def wb group_words_by_line_def times_0_7_values)
  have ra: "retained_angles ?cs = (if \<bar>a\<bar> < 45 then [a] else [])"
    by (simp add: retained_angles_def passes_filter_def adjusted_angle_def)
  have m: "median_or_zero [v] = v" for v
    by (simp add: median_or_zero_def np_median_def)
  show ?thesis
    by (simp add: extract_eq feature_values_eq wb wl ra m median_or_zero_Nil box_height_def
        np_diff_def)
qed

theorem single_word_box_witness:
  "extract_graphological_features []
     \<lparr>contours = [\<lparr>bounding_rect = (9, 5, 56, 56), min_area_angle = 0\<rparr>], ink_pixels = [100, 200],
      word_contours = [\<lparr>bounding_rect = (7, 3, 60, 60), min_area_angle = 12\<rparr>]\<rparr> () =
   Some ([feats 150 60 12 0 0 0 7], 0)"
  using single_word_box [of "[]" "\<lparr>bounding_rect = (9, 5, 56, 56), min_area_angle = 0\<rparr>" "[]"
      "[100, 200]" 7 3 12 "()"]
  by (simp add: pressure_of_def)

text \<open>
  C8. The angles that the word loop collects are the retained angles: for each word box the
  raw angle, plus 90 exactly when the box is taller than wide, kept when its absolute value
  is below 45. When the function returns, the slant lies strictly between -45 and 45; it is
  0 when no angle is retained, and when the mask has contours and an angle is retained it
  is the median of the retained angles.
\<close>

theorem slant_normalisation:
  assumes "extract_graphological_features h img lines = Some (h', f)"
  shows "snd (snd (collect_words (word_contours img) ([], [], []))) =
           retained_angles (word_contours img) \<and>
         (\<exists>s. num_get h' f ''slant'' = Some s \<and> - 45 < s \<and> s < 45 \<and>
              (retained_angles (word_contours img) = [] \<longrightarrow> s = 0) \<and>
              (contours img \<noteq> [] \<and> retained_angles (word_contours img) \<noteq> [] \<longrightarrow>
                 np_median (retained_angles (word_contours img)) = Some s))"
proof
  show "snd (snd (collect_words (word_contours img) ([], [], []))) =
           retained_angles (word_contours img)"
    by (simp add: collect_words_eq)
next
  let ?A = "retained_angles (word_contours img)"
  from assms obtain F where F: "feature_values img = Some F" and h': "h' = h @ [F]" "f = length h"
    by (auto simp: extract_eq)
  show "\<exists>s. num_get h' f ''slant'' = Some s \<and> - 45 < s \<and> s < 45 \<and>
              (?A = [] \<longrightarrow> s = 0) \<and>
              (contours img \<noteq> [] \<and> ?A \<noteq> [] \<longrightarrow> np_median ?A = Some s)"
  proof (cases "contours img \<noteq> [] \<and> ?A \<noteq> []")
    case True
    then have wb: "word_boxes (word_contours img) \<noteq> []"
      using word_boxes_Nil_retained by blast
    from np_median_Some True obtain s where s: "np_median ?A = Some s" by blast
    from F True wb obtain p l b w g m where "F = feats p l (median_or_zero ?A) b w g m"
      by (auto simp: feature_values_eq split: bind_splits)
    with h' s have "num_get h' f ''slant'' = Some s"
      by (simp add: num_get_feats median_or_zero_def)
    moreover from np_median_bounds [OF s retained_angles_bounds] have "- 45 < s \<and> s < 45" .
    ultimately show ?thesis using s True by blast
  next
    case False
    then have "contours img = [] \<or> median_or_zero ?A = 0"
      by (auto simp: median_or_zero_Nil)
    with F obtain p l b w g m where "F = feats p l 0 b w g m"
      by (auto simp: feature_values_eq default_feats median_or_zero_Nil
          split: if_splits bind_splits)
    with h' have "num_get h' f ''slant'' = Some 0" by (simp add: num_get_feats)
    with False show ?thesis by auto
  qed
qed

theorem slant_normalisation_witness:
  "extract_graphological_features [] sample_view () = Some ([feats 117 20 4 (293/3926) 15 50 6], 0) \<and>
   contours sample_view \<noteq> [] \<and> retained_angles (word_contours sample_view) = [12, - 10, 3, 5] \<and>
   snd (snd (collect_words (word_contours sample_view) ([], [], []))) = [12, - 10, 3, 5] \<and>
   num_get [feats 117 20 4 (293/3926) 15 50 6] 0 ''slant'' = Some 4 \<and>
   np_median [12, - 10, 3, 5] = Some 4 \<and>
   extract_graphological_features [] specks_view () = Some ([feats 100 0 0 0 0 0 0], 0) \<and>
   retained_angles (word_contours specks_view) = [] \<and>
   num_get [feats 100 0 0 0 0 0 0] 0 ''slant'' = Some 0"
proof -
  have r1: "extract_graphological_features [] sample_view () =
      Some ([feats 117 20 4 (293/3926) 15 50 6], 0)"
    using sample_run [of "[]" "()"] by simp
  have r2: "extract_graphological_features [] specks_view () = Some ([feats 100 0 0 0 0 0 0], 0)"
    by (simp add: extract_eq feature_values_eq)
       (simp add: specks_view_def word_boxes_def passes_filter_def pressure_of_def)
  have c: "contours sample_view \<noteq> []" by (simp add: sample_view_def)
  have e: "retained_angles (word_contours specks_view) = []"
    by (simp add: retained_angles_def specks_view_def passes_filter_def)
  have m: "np_median [12, - 10, 3, 5] = Some 4"
    by (simp add: np_median_def Let_def)
  from slant_normalisation [OF r1] slant_normalisation [OF r2] r1 r2 c e sample_retained m
  show ?thesis by auto
qed

text \<open>
  C9. The three dictionaries that the pipeline produces for a view do not depend on the
  store it starts from. In particular a second run, started from the store that the first
  run left, returns dictionaries equal to those of the first run, in new objects, and
  leaves every object of that store as it was.
\<close>

theorem pipeline_deterministic:
  "outcome (analyse h img lines) = outcome (analyse h' img lines) \<and>
   (analyse h img lines = Some (h1, f1, q1, d1) \<longrightarrow>
      (\<exists>h2 f2 q2 d2. analyse h1 img lines = Some (h2, f2, q2, d2) \<and>
         h2 ! f2 = h1 ! f1 \<and> h2 ! q2 = h1 ! q1 \<and> h2 ! d2 = h1 ! d1 \<and>
         take (length h1) h2 = h1))"
proof (intro conjI impI)
  have base: "outcome (analyse k img lines) = outcome (analyse [] img lines)" for k
    using analyse_local [of k img lines]
    by (auto simp: outcome_def nth_append numeral_2_eq_2)
  from base [of h] base [of h']
  show "outcome (analyse h img lines) = outcome (analyse h' img lines)" by simp
next
  assume a: "analyse h img lines = Some (h1, f1, q1, d1)"
  with analyse_local [of h img lines] obtain F Q D where
    1: "h1 = h @ [F, Q, D]" "f1 = length h" "q1 = Suc (length h)" "d1 = Suc (Suc (length h))"
    and 0: "analyse [] img lines = Some ([F, Q, D], 0, 1, 2)"
    by auto
  from analyse_local [of h1 img lines] 0 have
    "analyse h1 img lines = Some (h1 @ [F, Q, D], length h1, Suc (length h1), Suc (Suc (length h1)))"
    by auto
  then show "\<exists>h2 f2 q2 d2. analyse h1 img lines = Some (h2, f2, q2, d2) \<and>
         h2 ! f2 = h1 ! f1 \<and> h2 ! q2 = h1 ! q1 \<and> h2 ! d2 = h1 ! d1 \<and>
         take (length h1) h2 = h1"
    by (simp add: 1 nth_append)
qed

theorem pipeline_deterministic_witness:
  "analyse [] sample_view () = Some (sample_store, 0, 1, 2) \<and>
   outcome (analyse [] sample_view ()) = outcome (analyse sample_store sample_view ()) \<and>
   (\<exists>h2 f2 q2 d2. analyse sample_store sample_view () = Some (h2, f2, q2, d2) \<and>
         h2 ! f2 = sample_store ! 0 \<and> h2 ! q2 = sample_store ! 1 \<and> h2 ! d2 = sample_store ! 2 \<and>
         take (length sample_store) h2 = sample_store)"
  using pipeline_deterministic [of "[]" sample_view "()" sample_store sample_store 0 1 2]
    sample_analyse
  by simp

text \<open>
  C10. \<open>get_personality_profile\<close> does not change its input: when it returns, the
  feature dictionary, and every other object that was in the store before the call, is as it
  was; the two dictionaries returned are new objects.
\<close>

theorem input_not_mutated:
  assumes "features < length h" and "get_personality_profile h features = Some (h', q, d)"
  shows "h' ! features = h ! features \<and> take (length h) h' = h \<and>
         q = length h \<and> d = Suc (length h) \<and> length h' = length h + 2"
  using gpp_local [OF assms(1)] assms by (auto simp: nth_append)

theorem input_not_mutated_witness:
  "0 < length [extreme_features] \<and>
   get_personality_profile [extreme_features] 0 =
     Some ([extreme_features, scores (8/10) (9/10) (8/10) (5/10) (8/10) (2/10),
       [(''Outlook'', Str ''Sociable, expressive, approach-oriented.''),
        (''Focus'', Str ''Focused, introverted, detail-oriented.''),
        (''Intensity'', Str ''Intense, forceful, high energy.''),
        (''Mood'', Str ''Steady, balanced, and stable.''),
        (''Planning'', Str ''Cautious, planned, looks to the future.'')]], 1, 2) \<and>
   [extreme_features, scores (8/10) (9/10) (8/10) (5/10) (8/10) (2/10),
       [(''Outlook'', Str ''Sociable, expressive, approach-oriented.''),
        (''Focus'', Str ''Focused, introverted, detail-oriented.''),
        (''Intensity'', Str ''Intense, forceful, high energy.''),
        (''Mood'', Str ''Steady, balanced, and stable.''),
        (''Planning'', Str ''Cautious, planned, looks to the future.'')]] ! 0 = [extreme_features] ! 0"
proof -
  have run: "get_personality_profile [extreme_features] 0 =
     Some ([extreme_features, scores (8/10) (9/10) (8/10) (5/10) (8/10) (2/10),
       [(''Outlook'', Str ''Sociable, expressive, approach-oriented.''),
        (''Focus'', Str ''Focused, introverted, detail-oriented.''),
        (''Intensity'', Str ''Intense, forceful, high energy.''),
        (''Mood'', Str ''Steady, balanced, and stable.''),
        (''Planning'', Str ''Cautious, planned, looks to the future.'')]], 1, 2)"
    by (simp add: rule_defs heap_defs np_clip_def extreme_features_def scores_def)
  from input_not_mutated [OF _ run] run show ?thesis by simp
qed


end
